theory Spec2Isabelle
  imports Complex_Main "HOL-Library.Multiset"
begin

section \<open>Reading-order reconstruction: stages 4 to 9 of the image-based pipeline\<close>

text \<open>
  The development embeds the page-level functions of
  \<^verbatim>\<open>stage_4_merge_quadrants.py\<close> to \<^verbatim>\<open>stage_9_vertical_stacking.py\<close>.
  Python integers are \<^typ>\<open>int\<close>. Python floats are modelled by exact rationals
  (\<^typ>\<open>rat\<close>). The floats of these stages are sums and quotients of pixel integers with
  small denominators, so two of them whose exact values differ are ordered by the code as
  their exact values are. Where two exact values coincide, the float comparison can go
  either way by a rounding in the last bit: two fragments with equal exact keys
  \<open>mid_y + start_x / 50\<close> (such as \<open>3 + 53 / 50\<close> and \<open>4 + 3 / 50\<close>) may be sorted by stage 4
  in the reverse of their insertion order, which the stable sort of the model keeps, and a
  gap that equals a mean of averages in stage 8 may fall on either side of it. The concrete
  inputs used below have no such tie. Dictionaries with a fixed key set are records, a key
  whose value may be \<^verbatim>\<open>None\<close> is an \<open>option\<close> field, and a Python exception is the
  \<open>Inl\<close> branch of a sum.
\<close>

subsection \<open>Numbers\<close>

text \<open>Python 3 \<^verbatim>\<open>round(x)\<close>: to the nearest integer, halves to the even neighbour.\<close>

definition py_round :: "rat \<Rightarrow> int" where
  "py_round x =
     (let f = \<lfloor>x\<rfloor>; d = x - of_int f
      in if d < 1 / 2 then f
         else if 1 / 2 < d then f + 1
         else if even f then f else f + 1)"

text \<open>\<^verbatim>\<open>int(round(math.sqrt(n)))\<close> for an integer \<open>n\<close> that is a sum of two squares:
  the least \<open>k \<ge> 0\<close> with \<open>n \<le> k\<^sup>2 + k\<close>, found by counting up.\<close>

function round_sqrt_from :: "int \<Rightarrow> int \<Rightarrow> int" where
  "round_sqrt_from n k = (if n \<le> k * k + k then k else round_sqrt_from n (k + 1))"
  by pat_completeness auto
termination
proof (relation "measure (\<lambda>(n, k). nat (n - k))")
  show "wf (measure (\<lambda>(n, k). nat (n - k)))" by simp
next
  fix n k :: int
  assume "\<not> n \<le> k * k + k"
  moreover have "0 \<le> k * k" by simp
  ultimately have "k < n" by arith
  then show "((n, k + 1), (n, k)) \<in> measure (\<lambda>(n, k). nat (n - k))" by simp
qed

definition round_sqrt :: "int \<Rightarrow> int" where
  "round_sqrt n = round_sqrt_from n 0"

datatype py_error = TypeError

subsection \<open>Data model\<close>

text \<open>A text block as stage 3 emits it and stage 4 merges it (a Fragment).\<close>

record raw_block =
  block_text :: string
  start_x :: int
  end_x :: int
  start_y :: int
  end_y :: int
  mid_x :: int
  mid_y :: int
  mid_y_x :: rat
  height :: int
  confidence :: rat
  char_count :: int
  word_count :: int
  source_quadrant :: string

text \<open>The same block once stage 5 has added its metrics (a Fragment or a Line).
  \<open>character_width\<close> is \<^verbatim>\<open>None\<close> when \<open>char_count\<close> is not positive; the
  \<open>prev_\<close> fields are \<^verbatim>\<open>None\<close> for the first block of a page.\<close>

record block = raw_block +
  width :: int
  character_width :: "int option"
  prev_mid_y_diff :: "int option"
  prev_horizontal_gap :: "int option"
  prev_vertical_gap :: "int option"
  prev_overlap_x :: "int option"
  prev_overlap_y :: "int option"
  prev_distance :: "int option"

text \<open>The \<^verbatim>\<open>adaptive_thresholds\<close> dictionary, restricted to its numeric entries,
  in insertion order. \<^verbatim>\<open>if thresholds:\<close> is false for \<^verbatim>\<open>None\<close> and for
  the empty dictionary.\<close>

type_synonym thresholds = "(string \<times> rat) list"

definition truthy :: "thresholds option \<Rightarrow> bool" where
  "truthy th = (case th of None \<Rightarrow> False | Some d \<Rightarrow> d \<noteq> [])"

definition dict_get :: "thresholds option \<Rightarrow> string \<Rightarrow> rat \<Rightarrow> rat" where
  "dict_get th k dflt =
     (case th of None \<Rightarrow> dflt
      | Some d \<Rightarrow> (case map_of d k of None \<Rightarrow> dflt | Some v \<Rightarrow> v))"

text \<open>A vertical bucket of stage 7 (a Block): lines stacked in one column.\<close>

record vbucket =
  vb_bucket_id :: nat
  vb_num_blocks :: nat
  vb_start_x :: int
  vb_end_x :: int
  vb_start_y :: int
  vb_end_y :: int
  vb_mid_y :: rat
  vb_mid_x :: rat
  vb_min_mid_y :: int
  vb_min_mid_y_x :: rat
  vb_width :: int
  vb_height :: int
  vb_blocks :: "block list"

text \<open>A horizontal bucket of stage 8 (a Segment), before and after normalisation.\<close>

record hbucket =
  horizontal_bucket_id :: nat
  num_vertical_buckets :: nat
  num_text_blocks :: nat
  hb_start_x :: int
  hb_end_x :: int
  hb_start_y :: int
  hb_end_y :: int
  hb_mid_x :: rat
  hb_mid_y :: rat
  hb_min_mid_y_x :: rat
  hb_width :: int
  hb_height :: int
  vertical_buckets :: "vbucket list"

record segment = hbucket +
  left_edge :: int
  right_edge :: int
  top_edge :: int
  bottom_edge :: int

subsection \<open>Stage 9: vertical column stacking\<close>

definition is_vertically_aligned :: "segment \<Rightarrow> segment \<Rightarrow> rat \<Rightarrow> bool" where
  "is_vertically_aligned ref_bucket current_bucket threshold =
     (let left_diff = \<bar>left_edge current_bucket - left_edge ref_bucket\<bar>;
          right_diff = \<bar>right_edge current_bucket - right_edge ref_bucket\<bar>
      in of_int left_diff \<le> threshold \<or> of_int right_diff \<le> threshold)"

definition is_vertically_close :: "segment \<Rightarrow> segment \<Rightarrow> rat \<Rightarrow> bool" where
  "is_vertically_close ref_bucket current_bucket threshold =
     (let vertical_gap = top_edge current_bucket - bottom_edge ref_bucket
      in of_int vertical_gap \<le> threshold)"

text \<open>\<^verbatim>\<open>list.pop(i)\<close> and \<^verbatim>\<open>list.insert(i, x)\<close> for an index inside the list.\<close>

definition pop_at :: "nat \<Rightarrow> 'a list \<Rightarrow> 'a list" where
  "pop_at i xs = take i xs @ drop (Suc i) xs"

definition insert_at :: "nat \<Rightarrow> 'a \<Rightarrow> 'a list \<Rightarrow> 'a list" where
  "insert_at i x xs = take i xs @ x # drop i xs"

text \<open>The two nested \<^verbatim>\<open>while\<close> loops of \<^verbatim>\<open>vertical_column_stack_sort\<close>, with
  the loop variables \<open>ref_index\<close> and \<open>current_index\<close> as arguments. The local
  \<open>ref_bucket\<close> is always \<open>buckets[ref_index]\<close>.\<close>

function stack_loop :: "nat \<Rightarrow> nat \<Rightarrow> segment list \<Rightarrow> segment list" where
  "stack_loop ref_index current_index buckets =
     (if ref_index < length buckets then
        (if current_index < length buckets then
           (if is_vertically_aligned (buckets ! ref_index) (buckets ! current_index) 3
               \<and> is_vertically_close (buckets ! ref_index) (buckets ! current_index) 3
            then stack_loop (ref_index + 1) (ref_index + 2)
                   (insert_at (ref_index + 1) (buckets ! current_index)
                      (pop_at current_index buckets))
            else stack_loop ref_index (current_index + 1) buckets)
         else stack_loop (ref_index + 1) (ref_index + 2) buckets)
      else buckets)"
  by pat_completeness auto
termination
proof (relation "measures [\<lambda>(r, c, bs). length bs - r, \<lambda>(r, c, bs). length bs - c]",
    goal_cases)
  case 1
  show ?case by simp
next
  case (2 r c bs)
  then have "length (insert_at (r + 1) (bs ! c) (pop_at c bs)) = length bs"
    by (simp add: pop_at_def insert_at_def)
  moreover from 2 have "length bs - Suc r < length bs - r" by arith
  ultimately show ?case by simp
next
  case (3 r c bs)
  then show ?case by simp
next
  case (4 r c bs)
  then show ?case by simp
qed

definition vertical_column_stack_sort :: "segment list \<Rightarrow> segment list" where
  "vertical_column_stack_sort horizontal_buckets =
     (if horizontal_buckets = [] then [] else stack_loop 0 1 horizontal_buckets)"

text \<open>A page as stage 8 writes it and stage 9 reads it.\<close>

record hpage =
  hp_page_number :: nat
  total_text_blocks :: nat
  total_vertical_buckets :: nat
  total_horizontal_buckets :: nat
  horizontal_buckets :: "segment list"
  hp_adaptive_thresholds :: "thresholds option"

text \<open>\<^verbatim>\<open>for idx, bucket in enumerate(reordered_buckets): bucket['horizontal_bucket_id'] = idx\<close>\<close>

fun renumber :: "nat \<Rightarrow> segment list \<Rightarrow> segment list" where
  "renumber idx [] = []"
| "renumber idx (bucket # rest) =
     bucket\<lparr>horizontal_bucket_id := idx\<rparr> # renumber (Suc idx) rest"

definition process_page :: "hpage \<Rightarrow> hpage" where
  "process_page page_data =
     (let reordered_buckets = vertical_column_stack_sort (horizontal_buckets page_data)
      in page_data\<lparr>horizontal_buckets := renumber 0 reordered_buckets\<rparr>)"

text \<open>A segment with the given normalised edges (left, right, top, bottom) and no content,
  for concrete scenarios of the Reorderer.\<close>

definition edge_segment :: "int \<Rightarrow> int \<Rightarrow> int \<Rightarrow> int \<Rightarrow> segment" where
  "edge_segment l r t b =
     \<lparr>horizontal_bucket_id = 0, num_vertical_buckets = 0, num_text_blocks = 0,
      hb_start_x = 0, hb_end_x = 0, hb_start_y = 0, hb_end_y = 0,
      hb_mid_x = 0, hb_mid_y = 0, hb_min_mid_y_x = 0, hb_width = 0, hb_height = 0,
      vertical_buckets = [],
      left_edge = l, right_edge = r, top_edge = t, bottom_edge = b\<rparr>"

subsection \<open>Stage 8: normalised edges\<close>

text \<open>\<^verbatim>\<open>normalize_bucket_coordinates(bucket_data, page_width=2550, page_height=3300)\<close>: each
  bucket receives \<^verbatim>\<open>int(round((coordinate / page_dimension) * 100))\<close> for its four edges. A
  zero dimension falls back to the default. Nothing clamps the result.\<close>

definition normalize_bucket :: "rat \<Rightarrow> rat \<Rightarrow> hbucket \<Rightarrow> segment" where
  "normalize_bucket page_width page_height bucket =
     hbucket.extend bucket
       \<lparr>left_edge = py_round ((of_int (hb_start_x bucket) / page_width) * 100),
        right_edge = py_round ((of_int (hb_end_x bucket) / page_width) * 100),
        top_edge = py_round ((of_int (hb_start_y bucket) / page_height) * 100),
        bottom_edge = py_round ((of_int (hb_end_y bucket) / page_height) * 100)\<rparr>"

definition normalize_bucket_coordinates :: "hbucket list \<Rightarrow> rat \<Rightarrow> rat \<Rightarrow> segment list" where
  "normalize_bucket_coordinates bucket_data page_width page_height =
     (if bucket_data = [] then []
      else let page_width = (if page_width = 0 then 2550 else page_width);
               page_height = (if page_height = 0 then 3300 else page_height)
           in map (normalize_bucket page_width page_height) bucket_data)"

text \<open>A stage 8 bucket with the given pixel box (start_x, end_x, start_y, end_y) and no
  content, for concrete scenarios of the normalisation.\<close>

definition box_hbucket :: "int \<Rightarrow> int \<Rightarrow> int \<Rightarrow> int \<Rightarrow> hbucket" where
  "box_hbucket sx ex sy ey =
     \<lparr>horizontal_bucket_id = 0, num_vertical_buckets = 0, num_text_blocks = 0,
      hb_start_x = sx, hb_end_x = ex, hb_start_y = sy, hb_end_y = ey,
      hb_mid_x = of_int (sx + ex) / 2, hb_mid_y = of_int (sy + ey) / 2, hb_min_mid_y_x = 0,
      hb_width = ex - sx, hb_height = ey - sy, vertical_buckets = []\<rparr>"

subsection \<open>Stage 4: merging the quadrants\<close>

record quadrant =
  quadrant_name :: string
  q_blocks :: "raw_block list"

record ocr_page =
  op_page_number :: nat
  quadrants :: "quadrant list"

record merged_page =
  mp_page_number :: nat
  mp_total_blocks :: nat
  mp_blocks :: "raw_block list"
  blocks_filtered :: nat

text \<open>\<^verbatim>\<open>scale_coordinates_to_original\<close>: every coordinate becomes
  \<^verbatim>\<open>round(value / 2)\<close>, then \<open>mid_y_x\<close> is recomputed from the scaled values.\<close>

definition scale_block :: "raw_block \<Rightarrow> raw_block" where
  "scale_block block =
     (let sx = py_round (of_int (start_x block) / 2);
          my = py_round (of_int (mid_y block) / 2)
      in block\<lparr>start_x := sx,
               end_x := py_round (of_int (end_x block) / 2),
               mid_x := py_round (of_int (mid_x block) / 2),
               start_y := py_round (of_int (start_y block) / 2),
               end_y := py_round (of_int (end_y block) / 2),
               mid_y := my,
               height := py_round (of_int (height block) / 2),
               mid_y_x := of_int my + of_int sx / 50\<rparr>)"

definition scale_coordinates_to_original :: "raw_block list \<Rightarrow> raw_block list" where
  "scale_coordinates_to_original blocks = map scale_block blocks"

text \<open>The blocks of one quadrant that pass the confidence filter, tagged with their
  quadrant.\<close>

definition filtered_blocks :: "rat \<Rightarrow> quadrant \<Rightarrow> raw_block list" where
  "filtered_blocks min_confidence quadrant_data =
     filter (\<lambda>block. min_confidence \<le> confidence block)
       (map (\<lambda>block. block\<lparr>source_quadrant := quadrant_name quadrant_data\<rparr>)
          (q_blocks quadrant_data))"

text \<open>The confidence-surviving fragments of a page, in insertion order.\<close>

definition surviving_blocks :: "ocr_page \<Rightarrow> rat \<Rightarrow> raw_block list" where
  "surviving_blocks page_ocr_data min_confidence =
     concat (map (filtered_blocks min_confidence) (quadrants page_ocr_data))"

text \<open>\<^verbatim>\<open>merge_page_quadrants\<close>: collect, sort (stably, as \<^verbatim>\<open>list.sort\<close> does) by the
  \<open>mid_y_x\<close> field that stage 3 stored for the upscaled coordinates, and only then
  scale.\<close>

definition merge_page_quadrants :: "ocr_page \<Rightarrow> rat \<Rightarrow> merged_page" where
  "merge_page_quadrants page_ocr_data min_confidence =
     (let all_blocks = surviving_blocks page_ocr_data min_confidence;
          total_blocks_before_filter =
            sum_list (map (\<lambda>q. length (q_blocks q)) (quadrants page_ocr_data));
          all_blocks = sort_key mid_y_x all_blocks;
          all_blocks = scale_coordinates_to_original all_blocks
      in \<lparr>mp_page_number = op_page_number page_ocr_data,
          mp_total_blocks = length all_blocks,
          mp_blocks = all_blocks,
          blocks_filtered = total_blocks_before_filter - length all_blocks\<rparr>)"

text \<open>\<^verbatim>\<open>len(text.split())\<close>, with the blank as the only whitespace character: the
  number of maximal runs of non-blank characters.\<close>

fun count_words :: "bool \<Rightarrow> string \<Rightarrow> nat" where
  "count_words in_word [] = 0"
| "count_words in_word (c # cs) =
     (if c = CHR '' '' then count_words False cs
      else (if in_word then 0 else 1) + count_words True cs)"

text \<open>A stage 3 block with the given text, pixel box (start_x, end_x, start_y, end_y) and
  confidence, with the derived fields computed as stage 3 computes them; the key
  \<open>mid_y_x\<close> is the exact sum, where stage 3 stores its float.\<close>

definition ocr_block :: "string \<Rightarrow> int \<Rightarrow> int \<Rightarrow> int \<Rightarrow> int \<Rightarrow> rat \<Rightarrow> raw_block" where
  "ocr_block t sx ex sy ey conf =
     (let my = py_round (of_int (sy + ey) / 2)
      in \<lparr>block_text = t, start_x = sx, end_x = ex, start_y = sy, end_y = ey,
          mid_x = py_round (of_int (sx + ex) / 2), mid_y = my,
          mid_y_x = of_int my + of_int sx / 50, height = ey - sy, confidence = conf,
          char_count = int (length t), word_count = int (count_words False t),
          source_quadrant = []\<rparr>)"

subsection \<open>Stage 5: block metrics\<close>

text \<open>One iteration of the loop of \<^verbatim>\<open>calculate_block_metrics\<close>: the block's own metrics and
  its relation to the previous block of the list (\<^verbatim>\<open>None\<close> for the first block).\<close>

definition enhance_block :: "'a raw_block_scheme option \<Rightarrow> 'a raw_block_scheme \<Rightarrow> block" where
  "enhance_block prev_block block =
     (let w = end_x block - start_x block
      in \<lparr>block_text = block_text block,
          start_x = start_x block, end_x = end_x block,
          start_y = start_y block, end_y = end_y block,
          mid_x = mid_x block, mid_y = mid_y block,
          mid_y_x = of_int (py_round (mid_y_x block)),
          height = height block, confidence = confidence block,
          char_count = char_count block, word_count = word_count block,
          source_quadrant = source_quadrant block,
          width = w,
          character_width =
            (if 0 < char_count block then Some (py_round (of_int w / of_int (char_count block)))
             else None),
          prev_mid_y_diff = map_option (\<lambda>p. mid_y block - mid_y p) prev_block,
          prev_horizontal_gap = map_option (\<lambda>p. start_x block - end_x p) prev_block,
          prev_vertical_gap = map_option (\<lambda>p. start_y block - end_y p) prev_block,
          prev_overlap_x =
            map_option (\<lambda>p. min (end_x block) (end_x p) - max (start_x block) (start_x p))
              prev_block,
          prev_overlap_y =
            map_option (\<lambda>p. min (end_y block) (end_y p) - max (start_y block) (start_y p))
              prev_block,
          prev_distance =
            map_option
              (\<lambda>p. round_sqrt ((mid_x block - mid_x p) * (mid_x block - mid_x p)
                               + (mid_y block - mid_y p) * (mid_y block - mid_y p)))
              prev_block\<rparr>)"

fun metrics_loop :: "'a raw_block_scheme option \<Rightarrow> 'a raw_block_scheme list \<Rightarrow> block list" where
  "metrics_loop prev_block [] = []"
| "metrics_loop prev_block (block # rest) =
     enhance_block prev_block block # metrics_loop (Some block) rest"

definition calculate_block_metrics :: "'a raw_block_scheme list \<Rightarrow> block list" where
  "calculate_block_metrics blocks = metrics_loop None blocks"

subsection \<open>Stage 6: horizontal merge (the Line Merger)\<close>

text \<open>\<^verbatim>\<open>a or b\<close> on optional integers: \<^verbatim>\<open>None\<close> and \<open>0\<close> are false.\<close>

definition py_or :: "int option \<Rightarrow> int option \<Rightarrow> int option" where
  "py_or a b = (case a of None \<Rightarrow> b | Some v \<Rightarrow> if v = 0 then b else Some v)"

definition merge_two_blocks :: "block \<Rightarrow> block \<Rightarrow> block" where
  "merge_two_blocks block1 block2 =
     (let first_block = (if start_x block1 \<le> start_x block2 then block1 else block2);
          second_block = (if start_x block1 \<le> start_x block2 then block2 else block1);
          merged_text = block_text first_block @ '' '' @ block_text second_block;
          new_start_x = min (start_x first_block) (start_x second_block);
          new_end_x = max (end_x first_block) (end_x second_block);
          new_start_y = min (start_y first_block) (start_y second_block);
          new_end_y = max (end_y first_block) (end_y second_block);
          new_mid_x = (of_int (new_start_x + new_end_x) :: rat) / 2;
          new_mid_y = (of_int (new_start_y + new_end_y) :: rat) / 2;
          new_mid_y_x = new_mid_y + of_int new_start_x / 50;
          new_width = new_end_x - new_start_x;
          new_height = new_end_y - new_start_y;
          new_char_count = char_count first_block + char_count second_block + 1;
          new_word_count = word_count first_block + word_count second_block;
          new_character_width =
            (if 0 < new_char_count
             then Some (py_round (of_int new_width / of_int new_char_count))
             else py_or (character_width first_block) (character_width second_block));
          new_confidence = max (confidence first_block) (confidence second_block)
      in \<lparr>block_text = merged_text,
          start_x = new_start_x, end_x = new_end_x,
          start_y = new_start_y, end_y = new_end_y,
          mid_x = py_round new_mid_x, mid_y = py_round new_mid_y,
          mid_y_x = of_int (py_round new_mid_y_x),
          height = new_height, confidence = new_confidence,
          char_count = new_char_count, word_count = new_word_count,
          source_quadrant = source_quadrant first_block,
          width = new_width, character_width = new_character_width,
          prev_mid_y_diff = None, prev_horizontal_gap = None, prev_vertical_gap = None,
          prev_overlap_x = None, prev_overlap_y = None, prev_distance = None\<rparr>)"

text \<open>A character width that is \<^verbatim>\<open>None\<close> or \<open>0\<close> is replaced by the fallback.\<close>

definition char_width_or :: "int option \<Rightarrow> int \<Rightarrow> int" where
  "char_width_or cw fallback = (case cw of None \<Rightarrow> fallback | Some w \<Rightarrow> if w = 0 then fallback else w)"

text \<open>The two thresholds \<^verbatim>\<open>should_merge_blocks\<close> derives, adaptive or legacy.\<close>

definition merge_thresholds :: "block \<Rightarrow> block \<Rightarrow> thresholds option \<Rightarrow> rat \<times> rat" where
  "merge_thresholds ref_block current_block thresholds =
     (if truthy thresholds then
        (let vertical_tolerance = dict_get thresholds ''vertical_merge_tolerance'' 50;
             ref_char_width = char_width_or (character_width ref_block) 36;
             current_char_width = char_width_or (character_width current_block) 36;
             local_median_char_width = (of_int (ref_char_width + current_char_width) :: rat) / 2
         in (vertical_tolerance, local_median_char_width * 3))
      else
        (let ref_char_width = char_width_or (character_width ref_block) 50;
             current_char_width = char_width_or (character_width current_block) 50
         in (of_int (min ref_char_width current_char_width),
             2 * of_int (min ref_char_width current_char_width))))"

definition should_merge_blocks :: "block \<Rightarrow> block \<Rightarrow> thresholds option \<Rightarrow> bool \<times> int option" where
  "should_merge_blocks ref_block current_block thresholds =
     (let (vertical_tolerance, horizontal_gap_threshold) =
            merge_thresholds ref_block current_block thresholds;
          mid_y_diff = \<bar>mid_y current_block - mid_y ref_block\<bar>
      in if vertical_tolerance \<le> of_int mid_y_diff then (False, None)
         else
           (let gap = (if start_x current_block < start_x ref_block
                       then start_x ref_block - end_x current_block
                       else start_x current_block - end_x ref_block)
            in if of_int gap < horizontal_gap_threshold then (True, Some gap)
               else (False, None)))"

definition max_lookahead :: nat where
  "max_lookahead = 20"

text \<open>The index of the first element of a list that satisfies a test.\<close>

fun first_match :: "('a \<Rightarrow> bool) \<Rightarrow> 'a list \<Rightarrow> nat option" where
  "first_match P [] = None"
| "first_match P (x # xs) = (if P x then Some 0 else map_option Suc (first_match P xs))"

text \<open>The \<^verbatim>\<open>for j in range(i + 1, min(i + 1 + max_lookahead, len(merged_blocks)))\<close> scan: the
  first \<open>j\<close> of the window whose block should merge with the reference at \<open>i\<close>.\<close>

definition lookahead :: "thresholds option \<Rightarrow> nat \<Rightarrow> block list \<Rightarrow> nat option" where
  "lookahead thresholds i merged_blocks =
     map_option (\<lambda>k. i + 1 + k)
       (first_match (\<lambda>current_block. fst (should_merge_blocks (merged_blocks ! i) current_block thresholds))
          (take max_lookahead (drop (i + 1) merged_blocks)))"

text \<open>The loops of \<^verbatim>\<open>merge_blocks_recursive\<close>. A merge replaces the reference at \<open>i\<close> by the
  merged block, pops the candidate at \<open>j\<close> and scans again from the same \<open>i\<close>; a scan that
  finds nothing advances \<open>i\<close>. The local \<open>ref_block\<close> is always \<open>merged_blocks[i]\<close>. The last
  argument is a ghost counter of the merges performed; the code does not have it.\<close>

function merge_loop :: "thresholds option \<Rightarrow> nat \<Rightarrow> block list \<Rightarrow> nat \<Rightarrow> block list \<times> nat" where
  "merge_loop thresholds i merged_blocks merges =
     (if i < length merged_blocks then
        (case lookahead thresholds i merged_blocks of
           Some j \<Rightarrow>
             merge_loop thresholds i
               (pop_at j (merged_blocks
                  [i := merge_two_blocks (merged_blocks ! i) (merged_blocks ! j)]))
               (Suc merges)
         | None \<Rightarrow> merge_loop thresholds (i + 1) merged_blocks merges)
      else (merged_blocks, merges))"
  by pat_completeness auto
termination
proof (relation "measure (\<lambda>(th, i, bs, n). 2 * length bs - i)", goal_cases)
  case 1
  show ?case by simp
next
  case (2 th i bs n)
  then show ?case by simp
next
  case (3 th i bs n j)
  have bound: "first_match P xs = Some k \<Longrightarrow> k < length xs" for P :: "block \<Rightarrow> bool" and xs k
  proof (induction xs arbitrary: k)
    case Nil
    then show ?case by simp
  next
    case (Cons x xs)
    show ?case
    proof (cases "P x")
      case True
      with Cons.prems show ?thesis by simp
    next
      case False
      with Cons.prems obtain k' where "first_match P xs = Some k'" "k = Suc k'" by auto
      with Cons.IH show ?thesis by simp
    qed
  qed
  from 3(2) obtain k where k: "j = i + 1 + k"
    "first_match (\<lambda>c. fst (should_merge_blocks (bs ! i) c th))
       (take max_lookahead (drop (i + 1) bs)) = Some k"
    unfolding lookahead_def by blast
  from bound [OF k(2)] have "k < length bs - (i + 1)" by simp
  with k(1) have j: "j < length bs" by simp
  then have "length (pop_at j (bs[i := merge_two_blocks (bs ! i) (bs ! j)])) = length bs - 1"
    by (simp add: pop_at_def)
  with 3(1) show ?case by simp
qed

definition merge_blocks_recursive :: "block list \<Rightarrow> thresholds option \<Rightarrow> block list" where
  "merge_blocks_recursive blocks thresholds =
     (if length blocks < 2 then blocks else fst (merge_loop thresholds 0 blocks 0))"

text \<open>The number of merges one run of \<^verbatim>\<open>merge_blocks_recursive\<close> performs.\<close>

definition merge_count :: "block list \<Rightarrow> thresholds option \<Rightarrow> nat" where
  "merge_count blocks thresholds =
     (if length blocks < 2 then 0 else snd (merge_loop thresholds 0 blocks 0))"

text \<open>A page of blocks with metrics, as stage 5 and stage 6 write it.\<close>

record block_page =
  page_number :: nat
  total_blocks :: nat
  adaptive_thresholds :: "thresholds option"
  blocks :: "block list"

definition merge_horizontal_for_page :: "block_page \<Rightarrow> block_page" where
  "merge_horizontal_for_page page_data =
     (let thresholds = adaptive_thresholds page_data;
          sorted_blocks = sort_key mid_y_x (blocks page_data);
          merged_blocks = merge_blocks_recursive sorted_blocks thresholds;
          merged_blocks = sort_key mid_y_x merged_blocks;
          merged_blocks = calculate_block_metrics merged_blocks
      in \<lparr>page_number = page_number page_data,
          total_blocks = length merged_blocks,
          adaptive_thresholds = thresholds,
          blocks = merged_blocks\<rparr>)"

text \<open>A fragment or line as stage 5 hands it to stage 6: the stage 3 block with the given
  text, pixel box and confidence, with its metrics and no previous block.\<close>

definition line_block :: "string \<Rightarrow> int \<Rightarrow> int \<Rightarrow> int \<Rightarrow> int \<Rightarrow> rat \<Rightarrow> block" where
  "line_block t sx ex sy ey conf = enhance_block None (ocr_block t sx ex sy ey conf)"

text \<open>The thresholds \<^verbatim>\<open>calculate_adaptive_thresholds\<close> returns for a page with fewer than ten
  blocks (its numeric entries).\<close>

definition default_thresholds :: thresholds where
  "default_thresholds =
     [(''vertical_merge_tolerance'', 50), (''horizontal_merge_gap'', 100),
      (''vertical_bucket_tolerance'', 70), (''horizontal_bucket_tolerance'', 50)]"

subsection \<open>First-fit grouping\<close>

text \<open>\<^verbatim>\<open>create_buckets\<close> of stage 7 and \<^verbatim>\<open>create_horizontal_buckets\<close> of stage 8 run the
  same two loops. The inner one, \<^verbatim>\<open>for bucket in buckets: if test(bucket, current): bucket.append(current); break\<close>,
  is \<open>add_to_first\<close>: it returns the new bucket list when some bucket took the element
  and \<^verbatim>\<open>None\<close> when none did; an exception of the test ends it. The outer one,
  \<^verbatim>\<open>for i in range(1, len(items))\<close>, is \<open>bucket_loop\<close>.\<close>

fun add_to_first ::
  "('a list \<Rightarrow> 'a \<Rightarrow> py_error + bool) \<Rightarrow> 'a \<Rightarrow> 'a list list \<Rightarrow> py_error + 'a list list option"
where
  "add_to_first test current_element [] = Inr None"
| "add_to_first test current_element (bucket # rest) =
     (case test bucket current_element of
        Inl e \<Rightarrow> Inl e
      | Inr True \<Rightarrow> Inr (Some ((bucket @ [current_element]) # rest))
      | Inr False \<Rightarrow>
          (case add_to_first test current_element rest of
             Inl e \<Rightarrow> Inl e
           | Inr None \<Rightarrow> Inr None
           | Inr (Some rest') \<Rightarrow> Inr (Some (bucket # rest'))))"

fun bucket_loop ::
  "('a list \<Rightarrow> 'a \<Rightarrow> py_error + bool) \<Rightarrow> 'a list \<Rightarrow> 'a list list \<Rightarrow> py_error + 'a list list"
where
  "bucket_loop test [] buckets = Inr buckets"
| "bucket_loop test (current_element # rest) buckets =
     (case add_to_first test current_element buckets of
        Inl e \<Rightarrow> Inl e
      | Inr (Some buckets') \<Rightarrow> bucket_loop test rest buckets'
      | Inr None \<Rightarrow> bucket_loop test rest (buckets @ [[current_element]]))"

text \<open>\<^verbatim>\<open>min(...)\<close> and \<^verbatim>\<open>max(...)\<close> over the members of a bucket; a bucket is never
  empty.\<close>

definition py_min :: "'a::linorder list \<Rightarrow> 'a" where
  "py_min xs = fold min (tl xs) (hd xs)"

definition py_max :: "'a::linorder list \<Rightarrow> 'a" where
  "py_max xs = fold max (tl xs) (hd xs)"

subsection \<open>Stage 7: vertical buckets (the Block Builder)\<close>

text \<open>The vertical and the horizontal threshold of \<^verbatim>\<open>should_add_to_bucket\<close>. Without
  adaptive thresholds the legacy branch compares \<^verbatim>\<open>character_width\<close> with \<open>0\<close>, which
  raises \<^verbatim>\<open>TypeError\<close> when the width is \<^verbatim>\<open>None\<close>.\<close>

definition bucket_thresholds :: "block \<Rightarrow> block \<Rightarrow> thresholds option \<Rightarrow> py_error + rat \<times> rat" where
  "bucket_thresholds bucket_last_element current_element thresholds =
     (if truthy thresholds then
        Inr (dict_get thresholds ''vertical_bucket_tolerance'' 70,
             dict_get thresholds ''horizontal_bucket_tolerance'' 50)
      else
        (case character_width bucket_last_element of
           None \<Rightarrow> Inl TypeError
         | Some char_width_ref \<Rightarrow>
             (case character_width current_element of
                None \<Rightarrow> Inl TypeError
              | Some char_width_current \<Rightarrow>
                  (let height_ref = (if height bucket_last_element \<le> 0 then 50
                                     else height bucket_last_element);
                       height_current = (if height current_element \<le> 0 then 50
                                         else height current_element);
                       char_width_ref = (if char_width_ref \<le> 0 then 50 else char_width_ref);
                       char_width_current =
                         (if char_width_current \<le> 0 then 50 else char_width_current)
                   in Inr (7 / 5 * of_int (min height_ref height_current),
                           of_int (min char_width_ref char_width_current))))))"

definition should_add_to_bucket :: "block \<Rightarrow> block \<Rightarrow> thresholds option \<Rightarrow> py_error + bool" where
  "should_add_to_bucket bucket_last_element current_element thresholds =
     (case bucket_thresholds bucket_last_element current_element thresholds of
        Inl e \<Rightarrow> Inl e
      | Inr (vertical_threshold, horizontal_threshold) \<Rightarrow>
          (let mid_y_distance = \<bar>mid_y current_element - mid_y bucket_last_element\<bar>
           in if vertical_threshold \<le> of_int mid_y_distance then Inr False
              else if of_int \<bar>start_x current_element - start_x bucket_last_element\<bar>
                        < 2 * horizontal_threshold then Inr True
              else if of_int \<bar>mid_x current_element - mid_x bucket_last_element\<bar>
                        < horizontal_threshold then Inr True
              else if of_int \<bar>end_x current_element - end_x bucket_last_element\<bar>
                        < horizontal_threshold then Inr True
              else Inr False))"

definition create_buckets :: "block list \<Rightarrow> thresholds option \<Rightarrow> py_error + block list list" where
  "create_buckets block_list thresholds =
     (case block_list of
        [] \<Rightarrow> Inr []
      | first # rest \<Rightarrow>
          bucket_loop (\<lambda>bucket current_element.
              should_add_to_bucket (last bucket) current_element thresholds)
            rest [[first]])"

text \<open>A page of vertical buckets, as stage 7 writes it. The \<^verbatim>\<open>adaptive_thresholds\<close> key
  is present only when the thresholds are truthy.\<close>

record bucket_page =
  bp_page_number :: nat
  bp_total_blocks :: nat
  total_buckets :: nat
  bp_buckets :: "vbucket list"
  bp_adaptive_thresholds :: "thresholds option"

definition bucket_info :: "nat \<Rightarrow> block list \<Rightarrow> vbucket" where
  "bucket_info idx bucket =
     (let bucket_start_x = py_min (map start_x bucket);
          bucket_end_x = py_max (map end_x bucket);
          bucket_start_y = py_min (map start_y bucket);
          bucket_end_y = py_max (map end_y bucket)
      in \<lparr>vb_bucket_id = idx, vb_num_blocks = length bucket,
          vb_start_x = bucket_start_x, vb_end_x = bucket_end_x,
          vb_start_y = bucket_start_y, vb_end_y = bucket_end_y,
          vb_mid_y = of_int (bucket_start_y + bucket_end_y) / 2,
          vb_mid_x = of_int (bucket_start_x + bucket_end_x) / 2,
          vb_min_mid_y = py_min (map mid_y bucket),
          vb_min_mid_y_x = py_min (map mid_y_x bucket),
          vb_width = bucket_end_x - bucket_start_x,
          vb_height = bucket_end_y - bucket_start_y,
          vb_blocks = bucket\<rparr>)"

definition process_page_buckets :: "block_page \<Rightarrow> py_error + bucket_page" where
  "process_page_buckets page_data =
     (let thresholds = adaptive_thresholds page_data;
          sorted_blocks = sort_key mid_y_x (blocks page_data)
      in case create_buckets sorted_blocks thresholds of
           Inl e \<Rightarrow> Inl e
         | Inr buckets \<Rightarrow>
             (let bucket_data = map (\<lambda>(idx, bucket). bucket_info idx bucket) (enumerate 0 buckets);
                  bucket_data = sort_key vb_min_mid_y_x bucket_data
              in Inr \<lparr>bp_page_number = page_number page_data,
                      bp_total_blocks = length sorted_blocks,
                      total_buckets = length buckets,
                      bp_buckets = bucket_data,
                      bp_adaptive_thresholds =
                        (if truthy thresholds then thresholds else None)\<rparr>))"

subsection \<open>Stage 8: horizontal buckets (the Segment Builder)\<close>

definition calculate_avg_block_height :: "vbucket \<Rightarrow> rat" where
  "calculate_avg_block_height vertical_bucket =
     (if vb_blocks vertical_bucket = [] then 50
      else of_int (sum_list (map height (vb_blocks vertical_bucket)))
             / of_nat (length (vb_blocks vertical_bucket)))"

text \<open>\<^verbatim>\<open>sum(block.get('character_width', 20) for block in blocks)\<close>: the key is always
  present, so the default is never used, and a width of \<^verbatim>\<open>None\<close> makes the sum raise
  \<^verbatim>\<open>TypeError\<close>.\<close>

definition calculate_avg_char_width :: "vbucket \<Rightarrow> py_error + rat" where
  "calculate_avg_char_width vertical_bucket =
     (if vb_blocks vertical_bucket = [] then Inr 20
      else (case those (map character_width (vb_blocks vertical_bucket)) of
              None \<Rightarrow> Inl TypeError
            | Some widths \<Rightarrow>
                Inr (of_int (sum_list widths) / of_nat (length (vb_blocks vertical_bucket)))))"

definition should_add_to_horizontal_bucket :: "vbucket list \<Rightarrow> vbucket \<Rightarrow> py_error + bool" where
  "should_add_to_horizontal_bucket horizontal_bucket current_vb =
     (let ref_vb = last horizontal_bucket;
          avg_height_ref = calculate_avg_block_height ref_vb;
          avg_height_current = calculate_avg_block_height current_vb;
          height_threshold = (avg_height_ref + avg_height_current) / 2;
          vertical_gap = vb_start_y current_vb - vb_end_y ref_vb
      in if height_threshold \<le> of_int vertical_gap then Inr False
         else
           (case calculate_avg_char_width ref_vb of
              Inl e \<Rightarrow> Inl e
            | Inr avg_char_width_ref \<Rightarrow>
                (case calculate_avg_char_width current_vb of
                   Inl e \<Rightarrow> Inl e
                 | Inr avg_char_width_current \<Rightarrow>
                     (let char_width_threshold = (avg_char_width_ref + avg_char_width_current) / 2
                      in if of_int \<bar>vb_start_x current_vb - vb_start_x ref_vb\<bar>
                              < char_width_threshold then Inr True
                         else if \<bar>vb_mid_x current_vb - vb_mid_x ref_vb\<bar>
                              < char_width_threshold then Inr True
                         else if of_int \<bar>vb_end_x current_vb - vb_end_x ref_vb\<bar>
                              < char_width_threshold then Inr True
                         else Inr False))))"

definition create_horizontal_buckets :: "vbucket list \<Rightarrow> py_error + vbucket list list" where
  "create_horizontal_buckets vertical_bucket_list =
     (case vertical_bucket_list of
        [] \<Rightarrow> Inr []
      | first # rest \<Rightarrow> bucket_loop should_add_to_horizontal_bucket rest [[first]])"

definition horizontal_bucket_info :: "nat \<Rightarrow> vbucket list \<Rightarrow> hbucket" where
  "horizontal_bucket_info idx h_bucket =
     (let bucket_start_x = py_min (map vb_start_x h_bucket);
          bucket_end_x = py_max (map vb_end_x h_bucket);
          bucket_start_y = py_min (map vb_start_y h_bucket);
          bucket_end_y = py_max (map vb_end_y h_bucket)
      in \<lparr>horizontal_bucket_id = idx,
          num_vertical_buckets = length h_bucket,
          num_text_blocks = sum_list (map vb_num_blocks h_bucket),
          hb_start_x = bucket_start_x, hb_end_x = bucket_end_x,
          hb_start_y = bucket_start_y, hb_end_y = bucket_end_y,
          hb_mid_x = of_int (bucket_start_x + bucket_end_x) / 2,
          hb_mid_y = of_int (bucket_start_y + bucket_end_y) / 2,
          hb_min_mid_y_x = py_min (map vb_min_mid_y_x h_bucket),
          hb_width = bucket_end_x - bucket_start_x,
          hb_height = bucket_end_y - bucket_start_y,
          vertical_buckets = h_bucket\<rparr>)"

definition process_page_horizontal_buckets :: "bucket_page \<Rightarrow> py_error + hpage" where
  "process_page_horizontal_buckets page_data =
     (case create_horizontal_buckets (bp_buckets page_data) of
        Inl e \<Rightarrow> Inl e
      | Inr h_buckets \<Rightarrow>
          (let bucket_data =
                 map (\<lambda>(idx, h_bucket). horizontal_bucket_info idx h_bucket) (enumerate 0 h_buckets);
               bucket_data = sort_key hb_min_mid_y_x bucket_data;
               bucket_data = normalize_bucket_coordinates bucket_data 2550 3300
           in Inr \<lparr>hp_page_number = bp_page_number page_data,
                   total_text_blocks = sum_list (map sum_list (map (map vb_num_blocks) h_buckets)),
                   total_vertical_buckets = sum_list (map length h_buckets),
                   total_horizontal_buckets = length h_buckets,
                   horizontal_buckets = bucket_data,
                   hp_adaptive_thresholds = bp_adaptive_thresholds page_data\<rparr>))"

subsection \<open>The page pipeline, stage 4 to stage 9\<close>

text \<open>One page through \<^verbatim>\<open>merge_page_quadrants\<close>, \<^verbatim>\<open>calculate_metrics_for_page\<close>,
  \<^verbatim>\<open>merge_horizontal_for_page\<close>, \<^verbatim>\<open>process_page_buckets\<close>,
  \<^verbatim>\<open>process_page_horizontal_buckets\<close> and \<^verbatim>\<open>process_page\<close>, in the order of
  \<^verbatim>\<open>test_pipeline.py\<close>. The dictionary that \<^verbatim>\<open>calculate_adaptive_thresholds\<close> computes
  from the page statistics is a parameter: the properties below hold for every value of
  it.\<close>

definition calculate_metrics_for_page :: "merged_page \<Rightarrow> thresholds option \<Rightarrow> block_page" where
  "calculate_metrics_for_page page_data thresholds =
     \<lparr>page_number = mp_page_number page_data,
      total_blocks = mp_total_blocks page_data,
      adaptive_thresholds = thresholds,
      blocks = calculate_block_metrics (mp_blocks page_data)\<rparr>"

definition page_pipeline :: "ocr_page \<Rightarrow> rat \<Rightarrow> thresholds option \<Rightarrow> py_error + hpage" where
  "page_pipeline page_ocr_data min_confidence thresholds =
     (let merged = merge_page_quadrants page_ocr_data min_confidence;
          metrics = calculate_metrics_for_page merged thresholds;
          lines = merge_horizontal_for_page metrics
      in case process_page_buckets lines of
           Inl e \<Rightarrow> Inl e
         | Inr vertical \<Rightarrow>
             (case process_page_horizontal_buckets vertical of
                Inl e \<Rightarrow> Inl e
              | Inr horizontal \<Rightarrow> Inr (process_page horizontal)))"



subsection \<open>The grouping rule as the specification words it\<close>

text \<open>First fit, in the specification's words: an item joins the first group, in creation
  order, whose last member accepts it; if no group accepts it, it starts a new group. The
  first item seeds the first group.\<close>

definition spec_first_fit_step :: "('a \<Rightarrow> 'a \<Rightarrow> bool) \<Rightarrow> 'a list list \<Rightarrow> 'a \<Rightarrow> 'a list list" where
  "spec_first_fit_step accepts groups item =
     (case first_match (\<lambda>g. accepts (last g) item) groups of
        Some k \<Rightarrow> groups[k := groups ! k @ [item]]
      | None \<Rightarrow> groups @ [[item]])"

definition spec_first_fit :: "('a \<Rightarrow> 'a \<Rightarrow> bool) \<Rightarrow> 'a list \<Rightarrow> 'a list list" where
  "spec_first_fit accepts items =
     (case items of
        [] \<Rightarrow> []
      | first # rest \<Rightarrow> foldl (spec_first_fit_step accepts) [[first]] rest)"

text \<open>The membership test of the Block Builder in the specification's words, with the
  block tolerances read from the adaptive thresholds.\<close>

definition spec_block_accepts :: "thresholds option \<Rightarrow> block \<Rightarrow> block \<Rightarrow> bool" where
  "spec_block_accepts thresholds last_member line =
     (let block_vertical_tolerance = dict_get thresholds ''vertical_bucket_tolerance'' 70;
          block_horizontal_tolerance = dict_get thresholds ''horizontal_bucket_tolerance'' 50
      in of_int \<bar>mid_y line - mid_y last_member\<bar> < block_vertical_tolerance
         \<and> (of_int \<bar>start_x line - start_x last_member\<bar> < 2 * block_horizontal_tolerance
            \<or> of_int \<bar>mid_x line - mid_x last_member\<bar> < block_horizontal_tolerance
            \<or> of_int \<bar>end_x line - end_x last_member\<bar> < block_horizontal_tolerance))"

text \<open>The averages of a Block over its Lines, for Lines that all have a character
  width.\<close>

definition spec_avg_height :: "vbucket \<Rightarrow> rat" where
  "spec_avg_height b =
     (if vb_blocks b = [] then 50
      else of_int (sum_list (map height (vb_blocks b))) / of_nat (length (vb_blocks b)))"

definition spec_avg_char_width :: "vbucket \<Rightarrow> rat" where
  "spec_avg_char_width b =
     (if vb_blocks b = [] then 20
      else of_int (sum_list (map (\<lambda>l. case character_width l of Some w \<Rightarrow> w | None \<Rightarrow> 0)
                              (vb_blocks b)))
             / of_nat (length (vb_blocks b)))"

text \<open>The membership test of the Segment Builder with one tolerance, the average character
  width of the two Blocks, for each of the three alignment tests; and the same test with
  the tolerance on \<open>start_x\<close> doubled, as claim C5 words it.\<close>

definition spec_segment_accepts :: "vbucket \<Rightarrow> vbucket \<Rightarrow> bool" where
  "spec_segment_accepts last_block candidate =
     (let tolerance = (spec_avg_char_width last_block + spec_avg_char_width candidate) / 2
      in of_int (vb_start_y candidate - vb_end_y last_block)
           < (spec_avg_height last_block + spec_avg_height candidate) / 2
         \<and> (of_int \<bar>vb_start_x candidate - vb_start_x last_block\<bar> < tolerance
            \<or> \<bar>vb_mid_x candidate - vb_mid_x last_block\<bar> < tolerance
            \<or> of_int \<bar>vb_end_x candidate - vb_end_x last_block\<bar> < tolerance))"

definition spec_segment_accepts_doubled :: "vbucket \<Rightarrow> vbucket \<Rightarrow> bool" where
  "spec_segment_accepts_doubled last_block candidate =
     (let tolerance = (spec_avg_char_width last_block + spec_avg_char_width candidate) / 2
      in of_int (vb_start_y candidate - vb_end_y last_block)
           < (spec_avg_height last_block + spec_avg_height candidate) / 2
         \<and> (of_int \<bar>vb_start_x candidate - vb_start_x last_block\<bar> < 2 * tolerance
            \<or> \<bar>vb_mid_x candidate - vb_mid_x last_block\<bar> < tolerance
            \<or> of_int \<bar>vb_end_x candidate - vb_end_x last_block\<bar> < tolerance))"


section \<open>Verified properties\<close>

subsection \<open>The stacking loop, step by step\<close>

declare stack_loop.simps [simp del]

lemma stack_loop_done: "\<not> r < length bs \<Longrightarrow> stack_loop r c bs = bs"
  by (subst stack_loop.simps) (simp only: if_False)

lemma stack_loop_next_ref:
  "r < length bs \<Longrightarrow> \<not> c < length bs \<Longrightarrow> stack_loop r c bs = stack_loop (r + 1) (r + 2) bs"
  by (subst stack_loop.simps) (simp only: if_True if_False)

lemma stack_loop_move:
  "r < length bs \<Longrightarrow> c < length bs \<Longrightarrow>
   is_vertically_aligned (bs ! r) (bs ! c) 3 \<and> is_vertically_close (bs ! r) (bs ! c) 3 \<Longrightarrow>
   stack_loop r c bs =
     stack_loop (r + 1) (r + 2) (insert_at (r + 1) (bs ! c) (pop_at c bs))"
  by (subst stack_loop.simps) (simp only: if_True simp_thms)

lemma stack_loop_skip:
  "r < length bs \<Longrightarrow> c < length bs \<Longrightarrow>
   \<not> (is_vertically_aligned (bs ! r) (bs ! c) 3 \<and> is_vertically_close (bs ! r) (bs ! c) 3) \<Longrightarrow>
   stack_loop r c bs = stack_loop r (c + 1) bs"
  by (subst stack_loop.simps) (simp only: if_True if_False)

lemma take_move:
  "r < c \<Longrightarrow> c < length bs \<Longrightarrow> take (Suc r) (insert_at (Suc r) x (pop_at c bs)) = take (Suc r) bs"
  by (simp add: insert_at_def pop_at_def min_def)

lemma nth_move:
  "r < c \<Longrightarrow> c < length bs \<Longrightarrow> insert_at (Suc r) x (pop_at c bs) ! Suc r = x"
  by (simp add: insert_at_def pop_at_def nth_append min_def)

lemma length_move: "c < length bs \<Longrightarrow> length (insert_at i x (pop_at c bs)) = length bs"
  by (simp add: insert_at_def pop_at_def)


lemma take_take_Suc: "take (Suc r) xs = take (Suc r) (take (Suc (Suc r)) xs)"
  by (simp add: min_def)

lemma stack_loop_prefix:
  "r < c \<Longrightarrow> take (Suc r) (stack_loop r c bs) = take (Suc r) bs"
proof (induction r c bs rule: stack_loop.induct)
  case (1 r c bs)
  show ?case
  proof (cases "r < length bs")
    case False
    show ?thesis by (simp only: stack_loop_done [OF False])
  next
    case r: True
    show ?thesis
    proof (cases "c < length bs")
      case False
      from "1.IH"(3) [OF r False]
      have "take (Suc (Suc r)) (stack_loop (r + 1) (r + 2) bs) = take (Suc (Suc r)) bs"
        by simp
      then have "take (Suc r) (stack_loop (r + 1) (r + 2) bs) = take (Suc r) bs"
        by (metis take_take_Suc)
      then show ?thesis by (simp only: stack_loop_next_ref [OF r False])
    next
      case c: True
      show ?thesis
      proof (cases "is_vertically_aligned (bs ! r) (bs ! c) 3 \<and> is_vertically_close (bs ! r) (bs ! c) 3")
        case m: True
        let ?bs = "insert_at (r + 1) (bs ! c) (pop_at c bs)"
        from "1.IH"(1) [OF r c m]
        have "take (Suc (Suc r)) (stack_loop (r + 1) (r + 2) ?bs) = take (Suc (Suc r)) ?bs"
          by simp
        then have "take (Suc r) (stack_loop (r + 1) (r + 2) ?bs) = take (Suc r) ?bs"
          by (metis take_take_Suc)
        also have "\<dots> = take (Suc r) bs"
          using take_move [OF "1.prems" c] by simp
        finally show ?thesis by (simp only: stack_loop_move [OF r c m])
      next
        case m: False
        from "1.IH"(2) [OF r c m] "1.prems"
        have "take (Suc r) (stack_loop r (c + 1) bs) = take (Suc r) bs" by simp
        then show ?thesis by (simp only: stack_loop_skip [OF r c m])
      qed
    qed
  qed
qed

lemma stack_loop_length: "length (stack_loop r c bs) = length bs"
proof (induction r c bs rule: stack_loop.induct)
  case (1 r c bs)
  show ?case
  proof (cases "r < length bs")
    case False
    show ?thesis by (simp only: stack_loop_done [OF False])
  next
    case r: True
    show ?thesis
    proof (cases "c < length bs")
      case False
      with "1.IH"(3) [OF r False] show ?thesis by (simp only: stack_loop_next_ref [OF r False])
    next
      case c: True
      show ?thesis
      proof (cases "is_vertically_aligned (bs ! r) (bs ! c) 3 \<and> is_vertically_close (bs ! r) (bs ! c) 3")
        case m: True
        from "1.IH"(1) [OF r c m] length_move [OF c] show ?thesis
          by (simp only: stack_loop_move [OF r c m])
      next
        case m: False
        from "1.IH"(2) [OF r c m] show ?thesis by (simp only: stack_loop_skip [OF r c m])
      qed
    qed
  qed
qed


subsection \<open>Stage 9: what a match does\<close>

lemma stack_loop_after_move:
  assumes rc: "r < c" and c: "c < length bs"
    and m: "is_vertically_aligned (bs ! r) (bs ! c) 3 \<and> is_vertically_close (bs ! r) (bs ! c) 3"
  shows "stack_loop r c bs ! r = bs ! r \<and> stack_loop r c bs ! Suc r = bs ! c"
proof -
  let ?bs = "insert_at (r + 1) (bs ! c) (pop_at c bs)"
  from rc c have r: "r < length bs" by simp
  have eq: "stack_loop r c bs = stack_loop (r + 1) (r + 2) ?bs"
    by (rule stack_loop_move [OF r c m])
  have pre: "take (Suc (Suc r)) (stack_loop (r + 1) (r + 2) ?bs) = take (Suc (Suc r)) ?bs"
    using stack_loop_prefix [of "r + 1" "r + 2" ?bs] by simp
  have "stack_loop (r + 1) (r + 2) ?bs ! r = take (Suc (Suc r)) (stack_loop (r + 1) (r + 2) ?bs) ! r"
    by simp
  also have "\<dots> = ?bs ! r" by (simp only: pre) simp
  also have "\<dots> = take (Suc r) ?bs ! r" by simp
  also have "\<dots> = bs ! r" using take_move [OF rc c, of "bs ! c"] by simp
  finally have a: "stack_loop r c bs ! r = bs ! r" by (simp only: eq)
  have "stack_loop (r + 1) (r + 2) ?bs ! Suc r
      = take (Suc (Suc r)) (stack_loop (r + 1) (r + 2) ?bs) ! Suc r"
    by simp
  also have "\<dots> = ?bs ! Suc r" by (simp only: pre) simp
  also have "\<dots> = bs ! c" using nth_move [OF rc c, of "bs ! c"] by simp
  finally have b: "stack_loop r c bs ! Suc r = bs ! c" by (simp only: eq)
  from a b show ?thesis by simp
qed

text \<open>
  Claim C10. The vertical-closeness test of the Reorderer has no lower bound: it holds
  whenever \<open>current.top_edge - ref.bottom_edge \<le> 3\<close>, however negative the gap. When the
  inner loop examines such a pair (reference at \<open>r\<close>, candidate at \<open>c\<close>) that is also
  edge-aligned, the candidate ends up immediately after the reference in the result.
\<close>

theorem vertically_close_no_lower_bound:
  "(top_edge cur - bottom_edge ref \<le> 3 \<longrightarrow> is_vertically_close ref cur 3) \<and>
   (r < c \<and> c < length bs \<and> is_vertically_aligned (bs ! r) (bs ! c) 3
      \<and> top_edge (bs ! c) - bottom_edge (bs ! r) \<le> 3
    \<longrightarrow> stack_loop r c bs ! r = bs ! r \<and> stack_loop r c bs ! Suc r = bs ! c)"
proof -
  have close: "is_vertically_close a b 3 = (top_edge b - bottom_edge a \<le> 3)" for a b
    by (simp add: is_vertically_close_def Let_def)
  show ?thesis
    using stack_loop_after_move [of r c bs] by (simp add: close)
qed

theorem vertically_close_no_lower_bound_witness:
  "(0::nat) < 2 \<and> 2 < length [edge_segment 10 45 50 80, edge_segment 60 90 0 5, edge_segment 10 45 10 30]
   \<and> is_vertically_aligned (edge_segment 10 45 50 80) (edge_segment 10 45 10 30) 3
   \<and> top_edge (edge_segment 10 45 10 30) - bottom_edge (edge_segment 10 45 50 80) = - 70
   \<and> is_vertically_close (edge_segment 10 45 50 80) (edge_segment 10 45 10 30) 3
   \<and> stack_loop 0 2 [edge_segment 10 45 50 80, edge_segment 60 90 0 5, edge_segment 10 45 10 30] ! Suc 0
       = edge_segment 10 45 10 30"
  using vertically_close_no_lower_bound
    [of "edge_segment 10 45 10 30" "edge_segment 10 45 50 80" 0 2
        "[edge_segment 10 45 50 80, edge_segment 60 90 0 5, edge_segment 10 45 10 30]"]
  by (simp add: is_vertically_aligned_def edge_segment_def)

lemma stack_loop_skip_many:
  "r < length bs \<Longrightarrow> c + k \<le> length bs \<Longrightarrow>
   (\<And>j. c \<le> j \<Longrightarrow> j < c + k \<Longrightarrow>
      \<not> (is_vertically_aligned (bs ! r) (bs ! j) 3 \<and> is_vertically_close (bs ! r) (bs ! j) 3)) \<Longrightarrow>
   stack_loop r c bs = stack_loop r (c + k) bs"
proof (induction k arbitrary: c)
  case 0
  show ?case by simp
next
  case (Suc k)
  from Suc.prems have c: "c < length bs" by simp
  have "\<not> (is_vertically_aligned (bs ! r) (bs ! c) 3 \<and> is_vertically_close (bs ! r) (bs ! c) 3)"
    using Suc.prems(3) [of c] by simp
  then have "stack_loop r c bs = stack_loop r (c + 1) bs"
    by (rule stack_loop_skip [OF Suc.prems(1) c])
  also have "\<dots> = stack_loop r (c + 1 + k) bs"
  proof (rule Suc.IH [OF Suc.prems(1)])
    show "c + 1 + k \<le> length bs" using Suc.prems(2) by simp
  next
    fix j assume "c + 1 \<le> j" "j < c + 1 + k"
    then show "\<not> (is_vertically_aligned (bs ! r) (bs ! j) 3 \<and> is_vertically_close (bs ! r) (bs ! j) 3)"
      using Suc.prems(3) [of j] by simp
  qed
  finally show ?case by simp
qed

lemma length_renumber: "length (renumber i xs) = length xs"
  by (induction xs arbitrary: i) simp_all

lemma nth_renumber:
  "k < length xs \<Longrightarrow> renumber i xs ! k = (xs ! k)\<lparr>horizontal_bucket_id := i + k\<rparr>"
proof (induction xs arbitrary: i k)
  case Nil
  then show ?case by simp
next
  case (Cons x xs)
  show ?case
  proof (cases k)
    case 0
    then show ?thesis by simp
  next
    case (Suc k')
    with Cons.prems have "k' < length xs" by simp
    from Cons.IH [OF this, of "Suc i"] Suc show ?thesis by simp
  qed
qed

lemma ids_renumber: "map horizontal_bucket_id (renumber i xs) = [i..<i + length xs]"
proof (induction xs arbitrary: i)
  case Nil
  show ?case by simp
next
  case (Cons x xs)
  have "[i..<i + length (x # xs)] = i # [Suc i..<Suc i + length xs]"
    by (simp add: upt_rec)
  with Cons.IH [of "Suc i"] show ?case by simp
qed

lemma stack_loop_pass:
  assumes r: "r < length bs"
    and no: "\<And>j. r < j \<Longrightarrow> j < length bs \<Longrightarrow>
      \<not> (is_vertically_aligned (bs ! r) (bs ! j) 3 \<and> is_vertically_close (bs ! r) (bs ! j) 3)"
  shows "stack_loop r (r + 1) bs = stack_loop (r + 1) (r + 2) bs"
proof -
  have "stack_loop r (r + 1) bs = stack_loop r (r + 1 + (length bs - (r + 1))) bs"
  proof (rule stack_loop_skip_many [OF r])
    show "r + 1 + (length bs - (r + 1)) \<le> length bs" using r by simp
  next
    fix j assume "r + 1 \<le> j" "j < r + 1 + (length bs - (r + 1))"
    then have "r < j" "j < length bs" using r by simp_all
    then show "\<not> (is_vertically_aligned (bs ! r) (bs ! j) 3 \<and> is_vertically_close (bs ! r) (bs ! j) 3)"
      by (rule no)
  qed
  also have "r + 1 + (length bs - (r + 1)) = length bs" using r by simp
  also have "stack_loop r (length bs) bs = stack_loop (r + 1) (r + 2) bs"
    by (rule stack_loop_next_ref [OF r]) simp
  finally show ?thesis .
qed

lemma stack_loop_skip_refs:
  assumes n: "n \<le> length bs"
    and no: "\<And>i j. i < n \<Longrightarrow> i < j \<Longrightarrow> j < length bs \<Longrightarrow>
      \<not> (is_vertically_aligned (bs ! i) (bs ! j) 3 \<and> is_vertically_close (bs ! i) (bs ! j) 3)"
  shows "stack_loop 0 1 bs = stack_loop n (n + 1) bs"
  using n no
proof (induction n)
  case 0
  show ?case by simp
next
  case (Suc n)
  from Suc.prems(1) have n: "n < length bs" by simp
  have "stack_loop 0 1 bs = stack_loop n (n + 1) bs"
  proof (rule Suc.IH)
    show "n \<le> length bs" using n by simp
  next
    fix i j assume "i < n" "i < j" "j < length bs"
    then show "\<not> (is_vertically_aligned (bs ! i) (bs ! j) 3 \<and> is_vertically_close (bs ! i) (bs ! j) 3)"
      using Suc.prems(2) [of i j] by simp
  qed
  also have "\<dots> = stack_loop (n + 1) (n + 2) bs"
  proof (rule stack_loop_pass [OF n])
    fix j assume "n < j" "j < length bs"
    then show "\<not> (is_vertically_aligned (bs ! n) (bs ! j) 3 \<and> is_vertically_close (bs ! n) (bs ! j) 3)"
      using Suc.prems(2) [of n j] by simp
  qed
  finally show ?case by simp
qed

lemma nth_in_drop:
  assumes "i < j" and "j < length xs"
  shows "xs ! j \<in> set (drop (Suc i) xs)"
proof -
  from assms have "drop (Suc i) xs ! (j - Suc i) = xs ! j" by simp
  moreover from assms have "j - Suc i < length (drop (Suc i) xs)" by simp
  ultimately show ?thesis by (metis nth_mem)
qed

lemma stack_pair_after_prefix:
  assumes m: "is_vertically_aligned s1 s2 3 \<and> is_vertically_close s1 s2 3"
    and pre: "\<forall>i<length pre. \<forall>x\<in>set (drop (Suc i) (pre @ s1 # mid @ s2 # rest)).
       \<not> (is_vertically_aligned (pre ! i) x 3 \<and> is_vertically_close (pre ! i) x 3)"
    and mid: "\<forall>x\<in>set mid. \<not> (is_vertically_aligned s1 x 3 \<and> is_vertically_close s1 x 3)"
  shows "vertical_column_stack_sort (pre @ s1 # mid @ s2 # rest) ! length pre = s1
       \<and> vertical_column_stack_sort (pre @ s1 # mid @ s2 # rest) ! Suc (length pre) = s2"
proof -
  let ?bs = "pre @ s1 # mid @ s2 # rest"
  let ?n = "length pre"
  let ?c = "?n + 1 + length mid"
  have r: "?n < length ?bs" by simp
  have at_n: "?bs ! ?n = s1" by simp
  have at_c: "?bs ! ?c = s2"
  proof -
    have "?bs ! ?c = (s1 # mid @ s2 # rest) ! (1 + length mid)"
      using nth_append_length_plus [of pre "s1 # mid @ s2 # rest" "1 + length mid"]
      by (simp only: add.assoc)
    then show ?thesis by (simp add: nth_append)
  qed
  have refs: "stack_loop 0 1 ?bs = stack_loop ?n (?n + 1) ?bs"
  proof (rule stack_loop_skip_refs)
    show "?n \<le> length ?bs" by simp
  next
    fix i j assume i: "i < ?n" and ij: "i < j" and j: "j < length ?bs"
    from ij j have mem: "?bs ! j \<in> set (drop (Suc i) ?bs)" by (rule nth_in_drop)
    from i have eq: "?bs ! i = pre ! i" by (simp add: nth_append)
    from pre i have "\<forall>x\<in>set (drop (Suc i) ?bs).
        \<not> (is_vertically_aligned (pre ! i) x 3 \<and> is_vertically_close (pre ! i) x 3)"
      by blast
    with mem have "\<not> (is_vertically_aligned (pre ! i) (?bs ! j) 3
        \<and> is_vertically_close (pre ! i) (?bs ! j) 3)"
      by blast
    then show "\<not> (is_vertically_aligned (?bs ! i) (?bs ! j) 3 \<and> is_vertically_close (?bs ! i) (?bs ! j) 3)"
      unfolding eq .
  qed
  have skip: "stack_loop ?n (?n + 1) ?bs = stack_loop ?n (?n + 1 + length mid) ?bs"
  proof (rule stack_loop_skip_many [OF r])
    show "?n + 1 + length mid \<le> length ?bs" by simp
  next
    fix j assume j: "?n + 1 \<le> j" "j < ?n + 1 + length mid"
    then obtain i where i: "j = ?n + 1 + i" "i < length mid"
      by (metis add_less_cancel_left le_Suc_ex)
    have "?bs ! j = (s1 # mid @ s2 # rest) ! (1 + i)"
      using nth_append_length_plus [of pre "s1 # mid @ s2 # rest" "1 + i"] i(1)
      by (simp only: add.assoc)
    with i(2) have "?bs ! j = mid ! i" by (simp add: nth_append)
    moreover have "mid ! i \<in> set mid" using i by simp
    ultimately show "\<not> (is_vertically_aligned (?bs ! ?n) (?bs ! j) 3 \<and> is_vertically_close (?bs ! ?n) (?bs ! j) 3)"
      using mid by (simp only: at_n) simp
  qed
  have c: "?c < length ?bs" by simp
  have rc: "?n < ?c" by simp
  have "is_vertically_aligned (?bs ! ?n) (?bs ! ?c) 3 \<and> is_vertically_close (?bs ! ?n) (?bs ! ?c) 3"
    using m by (simp only: at_n at_c)
  from stack_loop_after_move [OF rc c this]
  have "stack_loop ?n ?c ?bs ! ?n = s1 \<and> stack_loop ?n ?c ?bs ! Suc ?n = s2"
    by (simp only: at_n at_c)
  then have "stack_loop 0 1 ?bs ! ?n = s1 \<and> stack_loop 0 1 ?bs ! Suc ?n = s2"
    by (simp only: refs skip)
  then show ?thesis by (simp add: vertical_column_stack_sort_def)
qed

lemma ids_process_page:
  "map horizontal_bucket_id (horizontal_buckets (process_page page_data))
     = [0..<length (horizontal_buckets page_data)]"
proof -
  let ?out = "vertical_column_stack_sort (horizontal_buckets page_data)"
  have len: "length ?out = length (horizontal_buckets page_data)"
    by (simp add: vertical_column_stack_sort_def stack_loop_length)
  have "horizontal_buckets (process_page page_data) = renumber 0 ?out"
    by (simp add: process_page_def Let_def)
  moreover have "map horizontal_bucket_id (renumber 0 ?out) = [0..<0 + length ?out]"
    by (rule ids_renumber)
  ultimately show ?thesis by (simp add: len)
qed

subsection \<open>Stage 9: scenario C\<close>

text \<open>
  Claim C6 as stated fails: with a Segment between the two that itself matches the
  first one, the chain advances to that Segment and Segment 2 stays third.
\<close>

theorem scenario_c_counterexample:
  "vertical_column_stack_sort
     [edge_segment 10 45 10 30, edge_segment 10 45 20 60, edge_segment 11 44 32 50]
   = [edge_segment 10 45 10 30, edge_segment 10 45 20 60, edge_segment 11 44 32 50]"
  by (simp add: vertical_column_stack_sort_def stack_loop.simps insert_at_def pop_at_def
      is_vertically_aligned_def is_vertically_close_def edge_segment_def)

text \<open>
  Claim C6, amended. For every Segment list the ids of the Reorderer's output are
  \<open>0..N-1\<close> in final order. When Segment 1 (edges 10, 45, 10, 30) precedes Segment 2
  (edges 11, 44, 32, 50), no Segment before Segment 1 is both edge-aligned with and
  vertically close to a Segment that follows it in the list, and no Segment between the two
  is both edge-aligned with and vertically close to Segment 1, the Reorderer puts Segment 2
  immediately after Segment 1, which keeps its position.
\<close>

theorem scenario_c_stacking:
  "map horizontal_bucket_id (horizontal_buckets (process_page page_data))
     = [0..<length (horizontal_buckets page_data)]
   \<and> (left_edge s1 = 10 \<and> right_edge s1 = 45 \<and> top_edge s1 = 10 \<and> bottom_edge s1 = 30
       \<and> left_edge s2 = 11 \<and> right_edge s2 = 44 \<and> top_edge s2 = 32 \<and> bottom_edge s2 = 50
       \<and> horizontal_buckets page_data = pre @ s1 # mid @ s2 # rest
       \<and> (\<forall>i<length pre. \<forall>x\<in>set (drop (Suc i) (pre @ s1 # mid @ s2 # rest)).
             \<not> (is_vertically_aligned (pre ! i) x 3 \<and> is_vertically_close (pre ! i) x 3))
       \<and> (\<forall>x\<in>set mid. \<not> (is_vertically_aligned s1 x 3 \<and> is_vertically_close s1 x 3))
      \<longrightarrow> horizontal_buckets (process_page page_data) ! length pre
            = s1\<lparr>horizontal_bucket_id := length pre\<rparr>
          \<and> horizontal_buckets (process_page page_data) ! Suc (length pre)
            = s2\<lparr>horizontal_bucket_id := Suc (length pre)\<rparr>)"
proof (intro conjI impI)
  show "map horizontal_bucket_id (horizontal_buckets (process_page page_data))
     = [0..<length (horizontal_buckets page_data)]"
    by (rule ids_process_page)
next
  assume h: "left_edge s1 = 10 \<and> right_edge s1 = 45 \<and> top_edge s1 = 10 \<and> bottom_edge s1 = 30
       \<and> left_edge s2 = 11 \<and> right_edge s2 = 44 \<and> top_edge s2 = 32 \<and> bottom_edge s2 = 50
       \<and> horizontal_buckets page_data = pre @ s1 # mid @ s2 # rest
       \<and> (\<forall>i<length pre. \<forall>x\<in>set (drop (Suc i) (pre @ s1 # mid @ s2 # rest)).
             \<not> (is_vertically_aligned (pre ! i) x 3 \<and> is_vertically_close (pre ! i) x 3))
       \<and> (\<forall>x\<in>set mid. \<not> (is_vertically_aligned s1 x 3 \<and> is_vertically_close s1 x 3))"
  let ?bs = "pre @ s1 # mid @ s2 # rest"
  let ?out = "vertical_column_stack_sort ?bs"
  from h have page: "horizontal_buckets page_data = ?bs" by blast
  from h have m: "is_vertically_aligned s1 s2 3 \<and> is_vertically_close s1 s2 3"
    by (simp add: is_vertically_aligned_def is_vertically_close_def)
  from h have pre: "\<forall>i<length pre. \<forall>x\<in>set (drop (Suc i) ?bs).
             \<not> (is_vertically_aligned (pre ! i) x 3 \<and> is_vertically_close (pre ! i) x 3)"
    and mid: "\<forall>x\<in>set mid. \<not> (is_vertically_aligned s1 x 3 \<and> is_vertically_close s1 x 3)"
    by blast+
  from stack_pair_after_prefix [OF m pre mid]
  have hd: "?out ! length pre = s1" "?out ! Suc (length pre) = s2" by simp_all
  have len: "length ?out = length ?bs"
    by (simp add: vertical_column_stack_sort_def stack_loop_length)
  have res: "horizontal_buckets (process_page page_data) = renumber 0 ?out"
    by (simp add: process_page_def page Let_def)
  have "renumber 0 ?out ! length pre = (?out ! length pre)\<lparr>horizontal_bucket_id := 0 + length pre\<rparr>"
    by (rule nth_renumber) (simp add: len)
  then show "horizontal_buckets (process_page page_data) ! length pre
            = s1\<lparr>horizontal_bucket_id := length pre\<rparr>"
    by (simp add: res hd)
  have "renumber 0 ?out ! Suc (length pre)
     = (?out ! Suc (length pre))\<lparr>horizontal_bucket_id := 0 + Suc (length pre)\<rparr>"
    by (rule nth_renumber) (simp add: len)
  then show "horizontal_buckets (process_page page_data) ! Suc (length pre)
            = s2\<lparr>horizontal_bucket_id := Suc (length pre)\<rparr>"
    by (simp add: res hd)
qed

text \<open>The instance with one unrelated Segment before Segment 1 and one between the
  two.\<close>

theorem scenario_c_stacking_witness:
  "horizontal_buckets (process_page
        \<lparr>hp_page_number = 1, total_text_blocks = 0, total_vertical_buckets = 0,
         total_horizontal_buckets = 4,
         horizontal_buckets =
           [edge_segment 60 95 0 5, edge_segment 10 45 10 30, edge_segment 50 90 10 30,
            edge_segment 11 44 32 50],
         hp_adaptive_thresholds = None\<rparr>) ! Suc 0
     = (edge_segment 10 45 10 30)\<lparr>horizontal_bucket_id := Suc 0\<rparr>
   \<and> horizontal_buckets (process_page
        \<lparr>hp_page_number = 1, total_text_blocks = 0, total_vertical_buckets = 0,
         total_horizontal_buckets = 4,
         horizontal_buckets =
           [edge_segment 60 95 0 5, edge_segment 10 45 10 30, edge_segment 50 90 10 30,
            edge_segment 11 44 32 50],
         hp_adaptive_thresholds = None\<rparr>) ! Suc (Suc 0)
     = (edge_segment 11 44 32 50)\<lparr>horizontal_bucket_id := Suc (Suc 0)\<rparr>"
proof -
  let ?p = "edge_segment 60 95 0 5"
  let ?s1 = "edge_segment 10 45 10 30"
  let ?x = "edge_segment 50 90 10 30"
  let ?s2 = "edge_segment 11 44 32 50"
  let ?page = "\<lparr>hp_page_number = 1, total_text_blocks = 0, total_vertical_buckets = 0,
         total_horizontal_buckets = 4, horizontal_buckets = [?p, ?s1, ?x, ?s2],
         hp_adaptive_thresholds = None\<rparr>"
  have edges: "left_edge ?s1 = 10 \<and> right_edge ?s1 = 45 \<and> top_edge ?s1 = 10 \<and> bottom_edge ?s1 = 30
       \<and> left_edge ?s2 = 11 \<and> right_edge ?s2 = 44 \<and> top_edge ?s2 = 32 \<and> bottom_edge ?s2 = 50"
    by (simp add: edge_segment_def)
  have page: "horizontal_buckets ?page = [?p] @ ?s1 # [?x] @ ?s2 # []" by simp
  have pre: "\<forall>i<length [?p]. \<forall>x\<in>set (drop (Suc i) ([?p] @ ?s1 # [?x] @ ?s2 # [])).
             \<not> (is_vertically_aligned ([?p] ! i) x 3 \<and> is_vertically_close ([?p] ! i) x 3)"
    by (simp add: is_vertically_aligned_def is_vertically_close_def edge_segment_def)
  have mid: "\<forall>x\<in>set [?x]. \<not> (is_vertically_aligned ?s1 x 3 \<and> is_vertically_close ?s1 x 3)"
    by (simp add: is_vertically_aligned_def is_vertically_close_def edge_segment_def)
  have len: "length [?p] = Suc 0" by simp
  from scenario_c_stacking [of ?page ?s1 ?s2 "[?p]" "[?x]" "[]"] edges page pre mid
  have "horizontal_buckets (process_page ?page) ! length [?p]
            = ?s1\<lparr>horizontal_bucket_id := length [?p]\<rparr>
          \<and> horizontal_buckets (process_page ?page) ! Suc (length [?p])
            = ?s2\<lparr>horizontal_bucket_id := Suc (length [?p])\<rparr>"
    by blast
  then show ?thesis by (simp only: len)
qed

subsection \<open>Stage 8: normalisation bounds\<close>

text \<open>
  Claim C8 says that every normalised edge lies in \<open>[0, 100]\<close>. The function's own
  documentation says the same (``normalized coordinates (0-100 range)''), but it divides by the
  fixed reference dimensions and never clamps: a Segment whose right edge is at pixel 3000
  (a page rendered wider than 2550 pixels, such as a landscape letter page at 300 DPI) gets
  \<open>right_edge = 118\<close>.
\<close>

theorem normalized_edge_beyond_100:
  "map right_edge (normalize_bucket_coordinates [box_hbucket 2700 3000 100 200] 2550 3300) = [118]"
  by code_simp

subsection \<open>Stage 4: order of the assembled fragments\<close>

text \<open>
  Claim C7 says that the Fragment Assembler's output is sorted by the composite key computed
  from the output (halved) coordinates, as the module and the function document (``merged
  text blocks sorted by mid_y_x''; stage 5 takes the list as ``sorted by mid_y_x'' without
  sorting again). The code sorts by the key of the upscaled coordinates and halves, with
  rounding, afterwards. For fragment A at \<open>x:[0,40], y:[2,4]\<close> and fragment B at
  \<open>x:[75,115], y:[1,3]\<close> the upscaled keys are \<open>3\<close> and \<open>3.5\<close>, so A comes first; the output
  keys are \<open>2\<close> for A and \<open>1.76\<close> for B.
\<close>

theorem assembler_output_unsorted:
  "map mid_y_x (mp_blocks (merge_page_quadrants
     \<lparr>op_page_number = 1,
      quadrants = [\<lparr>quadrant_name = ''top_left'',
                    q_blocks = [ocr_block ''A'' 0 40 2 4 (9 / 10),
                                ocr_block ''B'' 75 115 1 3 (9 / 10)]\<rparr>]\<rparr>
     (3 / 10))) = [2, 44 / 25]
   \<and> \<not> sorted (map mid_y_x (mp_blocks (merge_page_quadrants
     \<lparr>op_page_number = 1,
      quadrants = [\<lparr>quadrant_name = ''top_left'',
                    q_blocks = [ocr_block ''A'' 0 40 2 4 (9 / 10),
                                ocr_block ''B'' 75 115 1 3 (9 / 10)]\<rparr>]\<rparr>
     (3 / 10))))"
  by code_simp

subsection \<open>Stage 6: the merge test and the merged line\<close>

lemma should_merge_adaptive:
  assumes "truthy thresholds"
  shows "fst (should_merge_blocks ref_block cand thresholds) =
     (of_int \<bar>mid_y cand - mid_y ref_block\<bar> < dict_get thresholds ''vertical_merge_tolerance'' 50
      \<and> of_int (if start_x cand < start_x ref_block then start_x ref_block - end_x cand
                 else start_x cand - end_x ref_block)
          < 3 * ((of_int (case character_width ref_block of None \<Rightarrow> 36
                           | Some w \<Rightarrow> if w = 0 then 36 else w)
                  + of_int (case character_width cand of None \<Rightarrow> 36
                             | Some w \<Rightarrow> if w = 0 then 36 else w)) / 2 :: rat))"
  using assms
  by (simp add: should_merge_blocks_def merge_thresholds_def char_width_or_def Let_def
      not_le [symmetric] mult.commute)

lemma merge_two_blocks_fields:
  "block_text (merge_two_blocks b1 b2) =
     (if start_x b1 \<le> start_x b2 then block_text b1 @ '' '' @ block_text b2
      else block_text b2 @ '' '' @ block_text b1)"
  "start_x (merge_two_blocks b1 b2) = min (start_x b1) (start_x b2)"
  "end_x (merge_two_blocks b1 b2) = max (end_x b1) (end_x b2)"
  "start_y (merge_two_blocks b1 b2) = min (start_y b1) (start_y b2)"
  "end_y (merge_two_blocks b1 b2) = max (end_y b1) (end_y b2)"
  "char_count (merge_two_blocks b1 b2) = char_count b1 + char_count b2 + 1"
  "word_count (merge_two_blocks b1 b2) = word_count b1 + word_count b2"
  "confidence (merge_two_blocks b1 b2) = max (confidence b1) (confidence b2)"
  by (simp_all add: merge_two_blocks_def Let_def min.commute max.commute add.commute)

text \<open>
  Claim C2.  With adaptive thresholds present, the Line Merger merges a reference line and a
  candidate exactly when the absolute difference of their \<open>mid_y\<close> is below the vertical
  merge tolerance and the horizontal gap between them (measured from the end of the left one
  to the start of the right one) is below three times the mean of their character widths,
  a missing or zero width counting as 36.  The merged line carries the two texts joined by
  one space in the order of \<open>start_x\<close>, the union of the two boxes, the sum of the character
  counts plus one, the sum of the word counts and the larger confidence.
\<close>

theorem line_merge_test_and_result:
  assumes "truthy thresholds"
  shows "fst (should_merge_blocks ref_block cand thresholds) =
     (of_int \<bar>mid_y cand - mid_y ref_block\<bar> < dict_get thresholds ''vertical_merge_tolerance'' 50
      \<and> of_int (if start_x cand < start_x ref_block then start_x ref_block - end_x cand
                 else start_x cand - end_x ref_block)
          < 3 * ((of_int (case character_width ref_block of None \<Rightarrow> 36
                           | Some w \<Rightarrow> if w = 0 then 36 else w)
                  + of_int (case character_width cand of None \<Rightarrow> 36
                             | Some w \<Rightarrow> if w = 0 then 36 else w)) / 2 :: rat))
   \<and> block_text (merge_two_blocks ref_block cand) =
       (if start_x ref_block \<le> start_x cand
        then block_text ref_block @ '' '' @ block_text cand
        else block_text cand @ '' '' @ block_text ref_block)
   \<and> start_x (merge_two_blocks ref_block cand) = min (start_x ref_block) (start_x cand)
   \<and> end_x (merge_two_blocks ref_block cand) = max (end_x ref_block) (end_x cand)
   \<and> start_y (merge_two_blocks ref_block cand) = min (start_y ref_block) (start_y cand)
   \<and> end_y (merge_two_blocks ref_block cand) = max (end_y ref_block) (end_y cand)
   \<and> char_count (merge_two_blocks ref_block cand) = char_count ref_block + char_count cand + 1
   \<and> word_count (merge_two_blocks ref_block cand) = word_count ref_block + word_count cand
   \<and> confidence (merge_two_blocks ref_block cand) = max (confidence ref_block) (confidence cand)"
  using should_merge_adaptive [OF assms, of ref_block cand]
  by (simp only: merge_two_blocks_fields simp_thms)

text \<open>
  The instance of scenario A: ``Hello'' at x 100--200, y 50--70 and ``World'' at x 210--300,
  y 52--72 with a vertical tolerance of 50.
\<close>

theorem line_merge_test_and_result_witness:
  "truthy (Some [(''vertical_merge_tolerance'', 50)])
   \<and> fst (should_merge_blocks (line_block ''Hello'' 100 200 50 70 (9 / 10))
            (line_block ''World'' 210 300 52 72 (8 / 10)) (Some [(''vertical_merge_tolerance'', 50)]))
   \<and> block_text (merge_two_blocks (line_block ''Hello'' 100 200 50 70 (9 / 10))
            (line_block ''World'' 210 300 52 72 (8 / 10))) = ''Hello World''"
proof -
  let ?h = "line_block ''Hello'' 100 200 50 70 (9 / 10)"
  let ?w = "line_block ''World'' 210 300 52 72 (8 / 10)"
  let ?th = "Some [(''vertical_merge_tolerance'', 50 :: rat)]"
  have t: "truthy ?th" by (simp add: truthy_def)
  have ev: "(of_int \<bar>mid_y ?w - mid_y ?h\<bar> < dict_get ?th ''vertical_merge_tolerance'' 50
      \<and> of_int (if start_x ?w < start_x ?h then start_x ?h - end_x ?w
                 else start_x ?w - end_x ?h)
          < 3 * ((of_int (case character_width ?h of None \<Rightarrow> 36
                           | Some w \<Rightarrow> if w = 0 then 36 else w)
                  + of_int (case character_width ?w of None \<Rightarrow> 36
                             | Some w \<Rightarrow> if w = 0 then 36 else w)) / 2 :: rat))"
    by code_simp
  have tx: "(if start_x ?h \<le> start_x ?w then block_text ?h @ '' '' @ block_text ?w
             else block_text ?w @ '' '' @ block_text ?h) = ''Hello World''"
    by code_simp
  from line_merge_test_and_result [OF t, of ?h ?w] ev tx t show ?thesis by simp
qed

subsection \<open>Stage 6: the merge loop\<close>

declare merge_loop.simps [simp del]

lemma first_match_None: "first_match P xs = None \<longleftrightarrow> (\<forall>x\<in>set xs. \<not> P x)"
  by (induction xs) simp_all

lemma first_match_Some:
  "first_match P xs = Some k \<Longrightarrow> k < length xs \<and> P (xs ! k) \<and> (\<forall>m<k. \<not> P (xs ! m))"
proof (induction xs arbitrary: k)
  case Nil
  then show ?case by simp
next
  case (Cons x xs)
  show ?case
  proof (cases "P x")
    case True
    with Cons.prems show ?thesis by simp
  next
    case False
    with Cons.prems obtain k' where k': "first_match P xs = Some k'" "k = Suc k'" by auto
    from Cons.IH [OF k'(1)] False k'(2) show ?thesis by (auto simp: less_Suc_eq_0_disj)
  qed
qed

lemma lookahead_None:
  "lookahead th i bs = None \<longleftrightarrow>
     (\<forall>j. i < j \<and> j \<le> i + max_lookahead \<and> j < length bs
          \<longrightarrow> \<not> fst (should_merge_blocks (bs ! i) (bs ! j) th))"
proof -
  let ?P = "\<lambda>c. fst (should_merge_blocks (bs ! i) c th)"
  let ?w = "take max_lookahead (drop (i + 1) bs)"
  have "lookahead th i bs = None \<longleftrightarrow> (\<forall>k<length ?w. \<not> ?P (?w ! k))"
    by (simp only: lookahead_def option.map_disc_iff first_match_None all_set_conv_all_nth)
  also have "\<dots> \<longleftrightarrow> (\<forall>k. k < max_lookahead \<and> i + 1 + k < length bs \<longrightarrow> \<not> ?P (bs ! (i + 1 + k)))"
    by (auto simp: nth_append)
  also have "\<dots> \<longleftrightarrow> (\<forall>j. i < j \<and> j \<le> i + max_lookahead \<and> j < length bs \<longrightarrow> \<not> ?P (bs ! j))"
  proof (intro iffI allI impI)
    fix j
    assume a: "\<forall>k. k < max_lookahead \<and> i + 1 + k < length bs \<longrightarrow> \<not> ?P (bs ! (i + 1 + k))"
      and j: "i < j \<and> j \<le> i + max_lookahead \<and> j < length bs"
    from j have "j - (i + 1) < max_lookahead \<and> i + 1 + (j - (i + 1)) < length bs" by arith
    with a have "\<not> ?P (bs ! (i + 1 + (j - (i + 1))))" by blast
    moreover from j have "i + 1 + (j - (i + 1)) = j" by arith
    ultimately show "\<not> ?P (bs ! j)" by simp
  next
    fix k
    assume a: "\<forall>j. i < j \<and> j \<le> i + max_lookahead \<and> j < length bs \<longrightarrow> \<not> ?P (bs ! j)"
      and k: "k < max_lookahead \<and> i + 1 + k < length bs"
    from k have "i < i + 1 + k \<and> i + 1 + k \<le> i + max_lookahead \<and> i + 1 + k < length bs" by arith
    with a show "\<not> ?P (bs ! (i + 1 + k))" by blast
  qed
  finally show ?thesis .
qed

lemma merge_loop_done: "\<not> i < length bs \<Longrightarrow> merge_loop th i bs n = (bs, n)"
  by (subst merge_loop.simps) (simp only: if_False)

lemma merge_loop_advance:
  "i < length bs \<Longrightarrow> lookahead th i bs = None \<Longrightarrow> merge_loop th i bs n = merge_loop th (i + 1) bs n"
  by (subst merge_loop.simps) (simp only: if_True option.case)

lemma merge_loop_merge:
  "i < length bs \<Longrightarrow> lookahead th i bs = Some j \<Longrightarrow>
   merge_loop th i bs n =
     merge_loop th i (pop_at j (bs[i := merge_two_blocks (bs ! i) (bs ! j)])) (Suc n)"
  by (subst merge_loop.simps) (simp only: if_True option.case)

lemma merge_loop_count_ge: "n \<le> snd (merge_loop th i bs n)"
proof (induction th i bs n rule: merge_loop.induct)
  case (1 th i bs n)
  show ?case
  proof (cases "i < length bs")
    case False
    show ?thesis by (simp only: merge_loop_done [OF False] snd_conv le_refl)
  next
    case True
    show ?thesis
    proof (cases "lookahead th i bs")
      case None
      from "1.IH"(1) [OF True None] show ?thesis by (simp only: merge_loop_advance [OF True None])
    next
      case (Some j)
      from "1.IH"(2) [OF True Some] show ?thesis
        by (simp only: merge_loop_merge [OF True Some])
    qed
  qed
qed

lemma merge_loop_no_merge:
  "snd (merge_loop th i bs n) = n \<longleftrightarrow> (\<forall>k. i \<le> k \<and> k < length bs \<longrightarrow> lookahead th k bs = None)"
proof (induction th i bs n rule: merge_loop.induct)
  case (1 th i bs n)
  show ?case
  proof (cases "i < length bs")
    case False
    then show ?thesis by (auto simp: merge_loop_done)
  next
    case True
    show ?thesis
    proof (cases "lookahead th i bs")
      case None
      have "(\<forall>k. i \<le> k \<and> k < length bs \<longrightarrow> lookahead th k bs = None)
            \<longleftrightarrow> (\<forall>k. i + 1 \<le> k \<and> k < length bs \<longrightarrow> lookahead th k bs = None)"
        using None by (metis Suc_eq_plus1 Suc_leI le_neq_implies_less Suc_leD)
      with "1.IH"(1) [OF True None] show ?thesis by (simp only: merge_loop_advance [OF True None])
    next
      case (Some j)
      have "Suc n \<le> snd (merge_loop th i (pop_at j (bs[i := merge_two_blocks (bs ! i) (bs ! j)])) (Suc n))"
        by (rule merge_loop_count_ge)
      then have "snd (merge_loop th i bs n) \<noteq> n"
        by (simp only: merge_loop_merge [OF True Some])
      moreover have "\<not> (\<forall>k. i \<le> k \<and> k < length bs \<longrightarrow> lookahead th k bs = None)"
        using True Some by auto
      ultimately show ?thesis by blast
    qed
  qed
qed

lemma merge_loop_unchanged:
  "snd (merge_loop th i bs n) = n \<Longrightarrow> fst (merge_loop th i bs n) = bs"
proof (induction th i bs n rule: merge_loop.induct)
  case (1 th i bs n)
  show ?case
  proof (cases "i < length bs")
    case False
    then show ?thesis by (simp add: merge_loop_done)
  next
    case True
    show ?thesis
    proof (cases "lookahead th i bs")
      case None
      from "1.prems" "1.IH"(1) [OF True None] show ?thesis
        by (simp only: merge_loop_advance [OF True None])
    next
      case (Some j)
      have "Suc n \<le> snd (merge_loop th i (pop_at j (bs[i := merge_two_blocks (bs ! i) (bs ! j)])) (Suc n))"
        by (rule merge_loop_count_ge)
      then have "snd (merge_loop th i bs n) \<noteq> n"
        by (simp only: merge_loop_merge [OF True Some])
      with "1.prems" show ?thesis by blast
    qed
  qed
qed

text \<open>
  Claim C3 as stated fails. Three ten-character fragments on one line, at \<open>x:[0,100]\<close>,
  \<open>x:[131,231]\<close> and \<open>x:[256,356]\<close>, each have character width 10, so the gap threshold
  of a pair is 30. The first run leaves the first fragment alone (gap 31) and merges the
  second with the third (gap 25); the merged line has 21 characters over 225 pixels, hence
  character width 11. In a second run the threshold of the first line and the merged line
  is \<open>3 \<times> (10 + 11) / 2 = 31.5\<close>, above the gap of 31, and they merge.
\<close>

theorem line_merger_second_run_merges:
  "let page = \<lparr>page_number = 1, total_blocks = 3,
                adaptive_thresholds = Some default_thresholds,
                blocks = calculate_block_metrics
                  [ocr_block ''aaaaaaaaaa'' 0 100 90 110 (9 / 10),
                   ocr_block ''bbbbbbbbbb'' 131 231 90 110 (9 / 10),
                   ocr_block ''cccccccccc'' 256 356 90 110 (9 / 10)]\<rparr>;
       once = merge_horizontal_for_page page;
       twice = merge_horizontal_for_page once
   in map block_text (blocks once) = [''aaaaaaaaaa'', ''bbbbbbbbbb cccccccccc'']
      \<and> merge_count (sort_key mid_y_x (blocks once)) (adaptive_thresholds once) = 1
      \<and> fst (should_merge_blocks (blocks once ! 0) (blocks once ! 1) (adaptive_thresholds once))
      \<and> map block_text (blocks twice) = [''aaaaaaaaaa bbbbbbbbbb cccccccccc'']"
  by code_simp

text \<open>
  Claim C3, amended. A run of the Line Merger on a list performs no merge exactly when no
  Line of that list satisfies the merge predicate with one of the (at most 20) Lines that
  follow it within the lookahead window, and the run then returns the list unchanged. The
  merger's own output need not be such a list, because a merge at a later position changes
  widths and window contents seen from earlier positions, which are not visited again.
\<close>

theorem line_merger_fixpoint:
  "(merge_count bs th = 0 \<longleftrightarrow>
      (\<forall>i j. i < j \<and> j \<le> i + max_lookahead \<and> j < length bs
             \<longrightarrow> \<not> fst (should_merge_blocks (bs ! i) (bs ! j) th)))
   \<and> (merge_count bs th = 0 \<longrightarrow> merge_blocks_recursive bs th = bs)"
proof (cases "length bs < 2")
  case True
  have "\<forall>i j. i < j \<and> j \<le> i + max_lookahead \<and> j < length bs
             \<longrightarrow> \<not> fst (should_merge_blocks (bs ! i) (bs ! j) th)"
  proof (intro allI impI)
    fix i j :: nat
    assume "i < j \<and> j \<le> i + max_lookahead \<and> j < length bs"
    with True have False by arith
    then show "\<not> fst (should_merge_blocks (bs ! i) (bs ! j) th)" ..
  qed
  moreover from True have "merge_count bs th = 0" "merge_blocks_recursive bs th = bs"
    by (simp_all add: merge_count_def merge_blocks_recursive_def)
  ultimately show ?thesis by blast
next
  case False
  have "(\<forall>k. 0 \<le> k \<and> k < length bs \<longrightarrow> lookahead th k bs = None) \<longleftrightarrow>
        (\<forall>i j. i < j \<and> j \<le> i + max_lookahead \<and> j < length bs
             \<longrightarrow> \<not> fst (should_merge_blocks (bs ! i) (bs ! j) th))"
    unfolding lookahead_None by (meson le0 less_trans)
  moreover from False have "merge_count bs th = snd (merge_loop th 0 bs 0)"
    "merge_blocks_recursive bs th = fst (merge_loop th 0 bs 0)"
    by (simp_all add: merge_count_def merge_blocks_recursive_def)
  ultimately show ?thesis
    using merge_loop_no_merge [of th 0 bs 0] merge_loop_unchanged [of th 0 bs 0] by simp
qed

text \<open>The instance of two fragments whose gap of 31 is not below the threshold of 30.\<close>

theorem line_merger_fixpoint_witness:
  "\<not> fst (should_merge_blocks (line_block ''aaaaaaaaaa'' 0 100 90 110 (9 / 10))
            (line_block ''bbbbbbbbbb'' 131 231 90 110 (9 / 10)) (Some default_thresholds))
   \<and> merge_count [line_block ''aaaaaaaaaa'' 0 100 90 110 (9 / 10),
                   line_block ''bbbbbbbbbb'' 131 231 90 110 (9 / 10)] (Some default_thresholds) = 0
   \<and> merge_blocks_recursive [line_block ''aaaaaaaaaa'' 0 100 90 110 (9 / 10),
                   line_block ''bbbbbbbbbb'' 131 231 90 110 (9 / 10)] (Some default_thresholds)
       = [line_block ''aaaaaaaaaa'' 0 100 90 110 (9 / 10),
          line_block ''bbbbbbbbbb'' 131 231 90 110 (9 / 10)]"
proof -
  let ?a = "line_block ''aaaaaaaaaa'' 0 100 90 110 (9 / 10)"
  let ?b = "line_block ''bbbbbbbbbb'' 131 231 90 110 (9 / 10)"
  let ?th = "Some default_thresholds"
  have ev: "\<not> fst (should_merge_blocks ?a ?b ?th)" by code_simp
  have clear: "\<forall>i j. i < j \<and> j \<le> i + max_lookahead \<and> j < length [?a, ?b]
             \<longrightarrow> \<not> fst (should_merge_blocks ([?a, ?b] ! i) ([?a, ?b] ! j) ?th)"
  proof (intro allI impI)
    fix i j :: nat
    assume "i < j \<and> j \<le> i + max_lookahead \<and> j < length [?a, ?b]"
    then have "i = 0" "j = 1" by simp_all
    with ev show "\<not> fst (should_merge_blocks ([?a, ?b] ! i) ([?a, ?b] ! j) ?th)" by simp
  qed
  from line_merger_fixpoint [of "[?a, ?b]" ?th] clear ev show ?thesis by blast
qed

subsection \<open>First-fit grouping refines the specification's rule\<close>

lemma add_to_first_spec:
  assumes "\<And>g. g \<in> set buckets \<Longrightarrow> test g cur = Inr (accepts (last g) cur)"
  shows "add_to_first test cur buckets =
     Inr (case first_match (\<lambda>g. accepts (last g) cur) buckets of
            Some k \<Rightarrow> Some (buckets[k := buckets ! k @ [cur]])
          | None \<Rightarrow> None)"
  using assms
proof (induction buckets)
  case Nil
  show ?case by simp
next
  case (Cons b rest)
  have b: "test b cur = Inr (accepts (last b) cur)" by (rule Cons.prems) simp
  show ?case
  proof (cases "accepts (last b) cur")
    case True
    with b show ?thesis by simp
  next
    case False
    have "add_to_first test cur rest =
        Inr (case first_match (\<lambda>g. accepts (last g) cur) rest of
               Some k \<Rightarrow> Some (rest[k := rest ! k @ [cur]])
             | None \<Rightarrow> None)"
      by (rule Cons.IH) (simp add: Cons.prems)
    with b False show ?thesis
      by (cases "first_match (\<lambda>g. accepts (last g) cur) rest") simp_all
  qed
qed

lemma first_match_bound: "first_match P xs = Some k \<Longrightarrow> k < length xs"
  by (induction xs arbitrary: k) (auto split: if_splits)

lemma bucket_loop_spec:
  assumes test: "\<And>g cur. g \<noteq> [] \<Longrightarrow> list_all ok g \<Longrightarrow> ok cur
                   \<Longrightarrow> test g cur = Inr (accepts (last g) cur)"
    and "list_all ok items"
    and "list_all (\<lambda>g. g \<noteq> [] \<and> list_all ok g) buckets"
  shows "bucket_loop test items buckets = Inr (foldl (spec_first_fit_step accepts) buckets items)"
  using assms(2,3)
proof (induction items arbitrary: buckets)
  case Nil
  show ?case by simp
next
  case (Cons cur rest)
  from Cons.prems have cur: "ok cur" and rest: "list_all ok rest" by simp_all
  have t: "test g cur = Inr (accepts (last g) cur)" if "g \<in> set buckets" for g
    using that Cons.prems(2) cur by (intro test) (auto simp: list_all_iff)
  note a = add_to_first_spec [of buckets test cur accepts, OF t]
  show ?case
  proof (cases "first_match (\<lambda>g. accepts (last g) cur) buckets")
    case None
    have "list_all (\<lambda>g. g \<noteq> [] \<and> list_all ok g) (buckets @ [[cur]])"
      using Cons.prems(2) cur by simp
    from Cons.IH [OF rest this] a None show ?thesis
      by (simp add: spec_first_fit_step_def)
  next
    case (Some k)
    from first_match_bound [OF Some] have k: "k < length buckets" .
    with Cons.prems(2) have "buckets ! k \<noteq> [] \<and> list_all ok (buckets ! k)"
      by (simp add: list_all_length)
    with cur have "(\<lambda>g. g \<noteq> [] \<and> list_all ok g) (buckets ! k @ [cur])" by simp
    with Cons.prems(2) have "list_all (\<lambda>g. g \<noteq> [] \<and> list_all ok g) (buckets[k := buckets ! k @ [cur]])"
      by (auto simp: list_all_iff dest!: subsetD [OF set_update_subset_insert])
    from Cons.IH [OF rest this] a Some show ?thesis
      by (simp add: spec_first_fit_step_def)
  qed
qed

subsection \<open>Stage 7: the Block Builder\<close>

lemma should_add_to_bucket_adaptive:
  assumes "truthy thresholds"
  shows "should_add_to_bucket l c thresholds = Inr (spec_block_accepts thresholds l c)"
  using assms
  by (simp add: should_add_to_bucket_def bucket_thresholds_def spec_block_accepts_def Let_def
      not_le [symmetric])

text \<open>
  Claim C4. With adaptive thresholds present, the Block Builder is first fit: the first
  Line seeds the first Block, and each later Line joins the first Block, in creation order,
  whose last member is within the vertical block tolerance in \<open>mid_y\<close> and within twice the
  horizontal block tolerance in \<open>start_x\<close>, or within the horizontal block tolerance in
  \<open>mid_x\<close> or in \<open>end_x\<close>; a Line that no Block accepts starts a new Block. The code
  never raises on this path.
\<close>

theorem block_builder_first_fit:
  assumes "truthy thresholds"
  shows "create_buckets lines thresholds = Inr (spec_first_fit (spec_block_accepts thresholds) lines)"
proof (cases lines)
  case Nil
  then show ?thesis by (simp add: create_buckets_def spec_first_fit_def)
next
  case (Cons first rest)
  have "bucket_loop (\<lambda>bucket current_element.
            should_add_to_bucket (last bucket) current_element thresholds) rest [[first]]
        = Inr (foldl (spec_first_fit_step (spec_block_accepts thresholds)) [[first]] rest)"
    by (rule bucket_loop_spec [where ok = "\<lambda>_. True"])
      (simp_all add: should_add_to_bucket_adaptive [OF assms] list_all_iff)
  with Cons show ?thesis by (simp add: create_buckets_def spec_first_fit_def)
qed

text \<open>Three Lines under the default thresholds (70 and 50): the second lies under the
  first, the third is 900 pixels to the right.\<close>

theorem block_builder_first_fit_witness:
  "truthy (Some default_thresholds)
   \<and> create_buckets [line_block ''Hello'' 100 200 50 70 (9 / 10),
                      line_block ''World'' 100 200 80 100 (9 / 10),
                      line_block ''Aside'' 1000 1100 60 80 (9 / 10)] (Some default_thresholds)
       = Inr [[line_block ''Hello'' 100 200 50 70 (9 / 10),
               line_block ''World'' 100 200 80 100 (9 / 10)],
              [line_block ''Aside'' 1000 1100 60 80 (9 / 10)]]"
proof -
  let ?ls = "[line_block ''Hello'' 100 200 50 70 (9 / 10),
              line_block ''World'' 100 200 80 100 (9 / 10),
              line_block ''Aside'' 1000 1100 60 80 (9 / 10)]"
  have t: "truthy (Some default_thresholds)" by code_simp
  have ev: "spec_first_fit (spec_block_accepts (Some default_thresholds)) ?ls
        = [[line_block ''Hello'' 100 200 50 70 (9 / 10),
            line_block ''World'' 100 200 80 100 (9 / 10)],
           [line_block ''Aside'' 1000 1100 60 80 (9 / 10)]]"
    by code_simp
  from block_builder_first_fit [OF t, of ?ls] ev t show ?thesis by simp
qed

subsection \<open>Stage 8: the Segment Builder\<close>

lemma those_defined:
  "list_all (\<lambda>b. f b \<noteq> None) bs
   \<Longrightarrow> those (map f bs) = Some (map (\<lambda>b. case f b of Some w \<Rightarrow> w | None \<Rightarrow> d) bs)"
  by (induction bs) auto

lemma calculate_avg_char_width_defined:
  assumes "list_all (\<lambda>b. character_width b \<noteq> None) (vb_blocks vb)"
  shows "calculate_avg_char_width vb = Inr (spec_avg_char_width vb)"
  by (simp add: calculate_avg_char_width_def spec_avg_char_width_def
      those_defined [OF assms, of 0])

lemma should_add_to_horizontal_bucket_defined:
  assumes "list_all (\<lambda>b. character_width b \<noteq> None) (vb_blocks (last g))"
    and "list_all (\<lambda>b. character_width b \<noteq> None) (vb_blocks cur)"
  shows "should_add_to_horizontal_bucket g cur = Inr (spec_segment_accepts (last g) cur)"
  by (simp add: should_add_to_horizontal_bucket_def spec_segment_accepts_def Let_def
      calculate_avg_char_width_defined [OF assms(1)] calculate_avg_char_width_defined [OF assms(2)]
      calculate_avg_block_height_def spec_avg_height_def not_le [symmetric])

text \<open>
  Claim C5 as stated fails: the Segment Builder does not double the tolerance on
  \<open>start_x\<close>. Two one-line Blocks with character width 10, the second starting 15 pixels
  to the right of the first and 5 pixels below its bottom: the test of the claim accepts
  (15 is below twice the tolerance of 10), the code starts a new Segment.
\<close>

theorem segment_builder_start_x_not_doubled:
  "spec_segment_accepts_doubled
     (bucket_info 0 [line_block ''aaaaaaaaaa'' 0 100 0 20 (9 / 10)])
     (bucket_info 1 [line_block ''bbbbbbbbbbbbbbbbbbbb'' 15 215 25 45 (9 / 10)])
   \<and> create_horizontal_buckets
        [bucket_info 0 [line_block ''aaaaaaaaaa'' 0 100 0 20 (9 / 10)],
         bucket_info 1 [line_block ''bbbbbbbbbbbbbbbbbbbb'' 15 215 25 45 (9 / 10)]]
       = Inr [[bucket_info 0 [line_block ''aaaaaaaaaa'' 0 100 0 20 (9 / 10)]],
              [bucket_info 1 [line_block ''bbbbbbbbbbbbbbbbbbbb'' 15 215 25 45 (9 / 10)]]]"
  by code_simp

text \<open>
  Claim C5, amended. When every Line has a character width, the Segment Builder is the
  same first fit one level up: a Block joins the first Segment, in creation order, whose
  last Block leaves a vertical gap \<open>candidate.start_y - last.end_y\<close> below the mean of the
  two average Line heights and differs in \<open>start_x\<close>, in \<open>mid_x\<close> or in \<open>end_x\<close> by less
  than the mean of the two average character widths; the tolerance on \<open>start_x\<close> is not
  doubled. The code never raises on this path.
\<close>

theorem segment_builder_first_fit:
  assumes "\<forall>vb\<in>set blocks_in. \<forall>l\<in>set (vb_blocks vb). character_width l \<noteq> None"
  shows "create_horizontal_buckets blocks_in = Inr (spec_first_fit spec_segment_accepts blocks_in)"
proof (cases blocks_in)
  case Nil
  then show ?thesis by (simp add: create_horizontal_buckets_def spec_first_fit_def)
next
  case (Cons first rest)
  let ?ok = "\<lambda>vb :: vbucket. list_all (\<lambda>b. character_width b \<noteq> None) (vb_blocks vb)"
  have "bucket_loop should_add_to_horizontal_bucket rest [[first]]
        = Inr (foldl (spec_first_fit_step spec_segment_accepts) [[first]] rest)"
  proof (rule bucket_loop_spec [where ok = ?ok])
    fix g :: "vbucket list" and cur :: vbucket
    assume "g \<noteq> []" "list_all ?ok g" "?ok cur"
    then have "?ok (last g)" using last_in_set [of g] by (auto simp: list_all_iff)
    then show "should_add_to_horizontal_bucket g cur = Inr (spec_segment_accepts (last g) cur)"
      using \<open>?ok cur\<close> by (rule should_add_to_horizontal_bucket_defined)
  next
    show "list_all ?ok rest" using assms Cons by (simp add: list_all_iff)
  next
    show "list_all (\<lambda>g. g \<noteq> [] \<and> list_all ?ok g) [[first]]"
      using assms Cons by (simp add: list_all_iff)
  qed
  with Cons show ?thesis by (simp add: create_horizontal_buckets_def spec_first_fit_def)
qed

text \<open>Two one-line Blocks whose left edges are 5 pixels apart share a Segment.\<close>

theorem segment_builder_first_fit_witness:
  "create_horizontal_buckets
        [bucket_info 0 [line_block ''aaaaaaaaaa'' 0 100 0 20 (9 / 10)],
         bucket_info 1 [line_block ''cccccccccc'' 5 105 25 45 (9 / 10)]]
       = Inr [[bucket_info 0 [line_block ''aaaaaaaaaa'' 0 100 0 20 (9 / 10)],
               bucket_info 1 [line_block ''cccccccccc'' 5 105 25 45 (9 / 10)]]]"
proof -
  let ?bs = "[bucket_info 0 [line_block ''aaaaaaaaaa'' 0 100 0 20 (9 / 10)],
              bucket_info 1 [line_block ''cccccccccc'' 5 105 25 45 (9 / 10)]]"
  have h: "\<forall>vb\<in>set ?bs. \<forall>l\<in>set (vb_blocks vb). character_width l \<noteq> None" by code_simp
  have ev: "spec_first_fit spec_segment_accepts ?bs = [?bs]" by code_simp
  from segment_builder_first_fit [OF h] ev show ?thesis by simp
qed

subsection \<open>The empty page\<close>

text \<open>
  Claim C9. A page without a fragment that survives the confidence filter goes through the
  pipeline without an exception and yields no Segment, whatever the thresholds; the Line
  Merger returns an empty or one-element list as it is, and the Block Builder, the Segment
  Builder, the normalisation and the Reorderer return the empty list on the empty list.
\<close>

theorem empty_page_no_segments:
  assumes "surviving_blocks page_ocr_data min_confidence = []"
  shows "(\<exists>out. page_pipeline page_ocr_data min_confidence thresholds = Inr out
              \<and> horizontal_buckets out = [])
       \<and> merge_blocks_recursive [] thresholds = []
       \<and> merge_blocks_recursive [b] thresholds = [b]
       \<and> create_buckets [] thresholds = Inr []
       \<and> create_horizontal_buckets [] = Inr []
       \<and> normalize_bucket_coordinates [] page_width page_height = []
       \<and> vertical_column_stack_sort [] = []"
proof -
  have m: "mp_blocks (merge_page_quadrants page_ocr_data min_confidence) = []"
    by (simp add: merge_page_quadrants_def assms scale_coordinates_to_original_def Let_def)
  have l: "blocks (merge_horizontal_for_page
      (calculate_metrics_for_page (merge_page_quadrants page_ocr_data min_confidence) thresholds)) = []"
    by (simp add: merge_horizontal_for_page_def calculate_metrics_for_page_def m
        calculate_block_metrics_def merge_blocks_recursive_def Let_def)
  have v: "\<exists>vp. process_page_buckets (merge_horizontal_for_page
      (calculate_metrics_for_page (merge_page_quadrants page_ocr_data min_confidence) thresholds)) = Inr vp
      \<and> bp_buckets vp = []"
    by (simp add: process_page_buckets_def l create_buckets_def Let_def enumerate_eq_zip)
  then obtain vp where vp: "process_page_buckets (merge_horizontal_for_page
      (calculate_metrics_for_page (merge_page_quadrants page_ocr_data min_confidence) thresholds)) = Inr vp"
      "bp_buckets vp = []" by blast
  have h: "\<exists>hp. process_page_horizontal_buckets vp = Inr hp \<and> horizontal_buckets hp = []"
    by (simp add: process_page_horizontal_buckets_def vp(2) create_horizontal_buckets_def Let_def
        enumerate_eq_zip normalize_bucket_coordinates_def)
  then obtain hp where hp: "process_page_horizontal_buckets vp = Inr hp" "horizontal_buckets hp = []"
    by blast
  have "horizontal_buckets (process_page hp) = []"
    by (simp add: process_page_def hp(2) vertical_column_stack_sort_def Let_def)
  moreover have "page_pipeline page_ocr_data min_confidence thresholds = Inr (process_page hp)"
    by (simp add: page_pipeline_def Let_def vp(1) hp(1))
  ultimately have "\<exists>out. page_pipeline page_ocr_data min_confidence thresholds = Inr out
              \<and> horizontal_buckets out = []" by blast
  moreover have "merge_blocks_recursive [] thresholds = []" "merge_blocks_recursive [b] thresholds = [b]"
    by (simp_all add: merge_blocks_recursive_def)
  moreover have "create_buckets [] thresholds = Inr []" by (simp add: create_buckets_def)
  moreover have "create_horizontal_buckets [] = Inr []" by (simp add: create_horizontal_buckets_def)
  moreover have "normalize_bucket_coordinates [] page_width page_height = []"
    by (simp add: normalize_bucket_coordinates_def)
  moreover have "vertical_column_stack_sort [] = []" by (simp add: vertical_column_stack_sort_def)
  ultimately show ?thesis by blast
qed

text \<open>A page whose only fragment has confidence 0.1, below the limit of 0.3.\<close>

theorem empty_page_no_segments_witness:
  "surviving_blocks
     \<lparr>op_page_number = 1,
      quadrants = [\<lparr>quadrant_name = ''top_left'',
                    q_blocks = [ocr_block ''smudge'' 10 90 10 30 (1 / 10)]\<rparr>]\<rparr> (3 / 10) = []
   \<and> (\<exists>out. page_pipeline
        \<lparr>op_page_number = 1,
         quadrants = [\<lparr>quadrant_name = ''top_left'',
                       q_blocks = [ocr_block ''smudge'' 10 90 10 30 (1 / 10)]\<rparr>]\<rparr> (3 / 10)
        (Some default_thresholds) = Inr out \<and> horizontal_buckets out = [])"
proof -
  let ?p = "\<lparr>op_page_number = 1,
      quadrants = [\<lparr>quadrant_name = ''top_left'',
                    q_blocks = [ocr_block ''smudge'' 10 90 10 30 (1 / 10)]\<rparr>]\<rparr>"
  have e: "surviving_blocks ?p (3 / 10) = []" by code_simp
  from empty_page_no_segments [OF e] e show ?thesis by blast
qed

subsection \<open>Text conservation\<close>























































end
